theory Spec2Isabelle
  imports Complex_Main
begin

section \<open>Double-precision arithmetic\<close>

text \<open>
  \<^verbatim>\<open>golden_section_search\<close> of \<^verbatim>\<open>src/golden_section_search.py\<close> computes with Python
  floats, which are IEEE-754 binary64 numbers. They are modelled as follows.

  \<^item> A \<open>double\<close> is a finite number (\<open>Finite x\<close>, \<open>x\<close> its exact value), plus or minus
    infinity, or NaN. Both zeros are \<open>Finite 0\<close>: the program neither divides by a
    variable nor inspects a sign, so they behave alike. Only a \<open>Finite x\<close> whose \<open>x\<close> is
    representable in binary64 stands for a Python float; every concrete run below starts
    from representable numbers, and the operations return representable numbers.
  \<^item> \<open>round64\<close> rounds an exact result to the nearest binary64 number, ties to the even
    significand: the result is a multiple of \<open>2 ^ (e - 52)\<close>, where \<open>e\<close> is the exponent of
    the argument (at least \<open>-1022\<close>, which gives the subnormal numbers), and a result of
    magnitude \<open>2 ^ 1024\<close> or more is an infinity.
  \<^item> \<open>dadd\<close>, \<open>dsub\<close>, \<open>dmul\<close> are \<^verbatim>\<open>+\<close>, \<^verbatim>\<open>-\<close>, \<^verbatim>\<open>*\<close>: the exact result rounded, with the
    IEEE rules for infinities and NaN. None of them raises.
  \<^item> \<open>dlt\<close>, \<open>dle\<close>, \<open>dgt\<close>, \<open>dge\<close> are \<^verbatim>\<open><\<close>, \<^verbatim>\<open><=\<close>, \<^verbatim>\<open>>\<close>, \<^verbatim>\<open>>=\<close>: false whenever an argument is
    NaN.
  \<^item> \<open>dsqrt\<close> and \<open>ddiv\<close> are \<^verbatim>\<open>math.sqrt\<close> and \<^verbatim>\<open>/\<close> where the program uses them: on the
    constants of line 42. (Where Python would raise, on a negative argument or a zero
    divisor, they return NaN; the program never gets there.)
\<close>

datatype double = Finite real | PInf | NInf | NaN

definition pow2 :: "int \<Rightarrow> real" where
  "pow2 k = (if 0 \<le> k then 2 ^ nat k else 1 / 2 ^ nat (- k))"

text \<open>The exponent of a non-zero number: \<open>2 ^ expo x \<le> |x| < 2 ^ (expo x + 1)\<close>.\<close>

definition expo :: "real \<Rightarrow> int" where
  "expo x = \<lfloor>log 2 \<bar>x\<bar>\<rfloor>"

text \<open>Rounding to the nearest integer, ties to even.\<close>

definition rne :: "real \<Rightarrow> int" where
  "rne r =
     (let n = \<lfloor>r\<rfloor>; d = r - of_int n
      in if d < 1 / 2 then n else if 1 / 2 < d then n + 1 else if even n then n else n + 1)"

definition round64 :: "real \<Rightarrow> double" where
  "round64 x =
     (if x = 0 then Finite 0
      else
        let e = max (expo x) (- 1022);
            u = pow2 (e - 52);
            y = of_int (rne (x / u)) * u
        in if pow2 1024 \<le> \<bar>y\<bar> then (if 0 < x then PInf else NInf) else Finite y)"

fun dneg :: "double \<Rightarrow> double" where
  "dneg (Finite x) = Finite (- x)"
| "dneg PInf = NInf"
| "dneg NInf = PInf"
| "dneg NaN = NaN"

fun dadd :: "double \<Rightarrow> double \<Rightarrow> double" where
  "dadd NaN y = NaN"
| "dadd x NaN = NaN"
| "dadd PInf NInf = NaN"
| "dadd NInf PInf = NaN"
| "dadd PInf y = PInf"
| "dadd x PInf = PInf"
| "dadd NInf y = NInf"
| "dadd x NInf = NInf"
| "dadd (Finite x) (Finite y) = round64 (x + y)"

definition dsub :: "double \<Rightarrow> double \<Rightarrow> double" where
  "dsub x y = dadd x (dneg y)"

fun dmul :: "double \<Rightarrow> double \<Rightarrow> double" where
  "dmul NaN y = NaN"
| "dmul x NaN = NaN"
| "dmul (Finite x) (Finite y) = round64 (x * y)"
| "dmul (Finite x) PInf = (if x = 0 then NaN else if 0 < x then PInf else NInf)"
| "dmul (Finite x) NInf = (if x = 0 then NaN else if 0 < x then NInf else PInf)"
| "dmul PInf (Finite y) = (if y = 0 then NaN else if 0 < y then PInf else NInf)"
| "dmul NInf (Finite y) = (if y = 0 then NaN else if 0 < y then NInf else PInf)"
| "dmul PInf PInf = PInf"
| "dmul PInf NInf = NInf"
| "dmul NInf PInf = NInf"
| "dmul NInf NInf = PInf"

fun dlt :: "double \<Rightarrow> double \<Rightarrow> bool" where
  "dlt NaN y = False"
| "dlt x NaN = False"
| "dlt (Finite x) (Finite y) = (x < y)"
| "dlt x NInf = False"
| "dlt NInf y = True"
| "dlt PInf y = False"
| "dlt x PInf = True"

definition dle :: "double \<Rightarrow> double \<Rightarrow> bool" where
  "dle x y \<longleftrightarrow> dlt x y \<or> (x = y \<and> x \<noteq> NaN)"

definition dgt :: "double \<Rightarrow> double \<Rightarrow> bool" where
  "dgt x y = dlt y x"

definition dge :: "double \<Rightarrow> double \<Rightarrow> bool" where
  "dge x y = dle y x"

fun dsqrt :: "double \<Rightarrow> double" where
  "dsqrt (Finite x) = (if x < 0 then NaN else round64 (sqrt x))"
| "dsqrt PInf = PInf"
| "dsqrt NInf = NaN"
| "dsqrt NaN = NaN"

fun ddiv :: "double \<Rightarrow> double \<Rightarrow> double" where
  "ddiv (Finite x) (Finite y) = (if y = 0 then NaN else round64 (x / y))"
| "ddiv x y = NaN"

section \<open>Golden-section search: the model\<close>

text \<open>
  The embedding follows \<^verbatim>\<open>golden_section_search\<close> line by line.

  \<^item> \<^verbatim>\<open>a\<close>, \<^verbatim>\<open>b\<close>, \<^verbatim>\<open>tol\<close> and the points \<^verbatim>\<open>c\<close>, \<^verbatim>\<open>d\<close> are doubles, as the signature
    annotates them. (Python integers passed for them are not modelled.)
  \<^item> \<^verbatim>\<open>max_iter\<close> and the counter \<^verbatim>\<open>it\<close> are Python's unbounded integers
    (\<^typ>\<open>int\<close>), so a zero or negative cap is an input like any other.
  \<^item> The objective \<^verbatim>\<open>f\<close> may raise: it is a function into a sum, \<open>Inl e\<close> being the
    exception \<open>e\<close> it raised at that point. The values it returns are only compared
    with each other (lines 53, 62 and 73), never computed with; they are real numbers,
    so that an objective returning NaN or an infinity is outside the model.
  \<^item> Every function that calls \<^verbatim>\<open>f\<close> threads the list of points at which \<^verbatim>\<open>f\<close> has
    been called so far (oldest first) and returns it next to its outcome, also when the
    outcome is an exception. This is the call counter wrapped around \<^verbatim>\<open>f\<close>.
\<close>

datatype 'e error =
    ValueError string
  | EvaluationError 'e

text \<open>
  Line 42: \<^verbatim>\<open>gr = (math.sqrt(5) - 1) / 2\<close>, which is the double \<open>0.6180339887498949\<close>
  (\<open>gr_value\<close> below).
\<close>

definition gr :: double where
  "gr = ddiv (dsub (dsqrt (Finite 5)) (Finite 1)) (Finite 2)"

text \<open>
  The local variables of the loop: \<^verbatim>\<open>a, b, c, d, fc, fd, it\<close>.
\<close>

record bracket =
  s_a :: double
  s_b :: double
  s_c :: double
  s_d :: double
  s_fc :: real
  s_fd :: real
  s_it :: int

text \<open>One call \<^verbatim>\<open>f(x)\<close>: the point is logged whether or not the call raises.\<close>

definition call :: "(double \<Rightarrow> 'e + real) \<Rightarrow> double \<Rightarrow> double list \<Rightarrow> ('e error + real) \<times> double list" where
  "call f x evals =
     ((case f x of Inl e \<Rightarrow> Inl (EvaluationError e) | Inr y \<Rightarrow> Inr y), evals @ [x])"

text \<open>
  Lines 54-56 and 63-65:
  \<^verbatim>\<open>b, d, fd = d, c, fc;  c = b - gr * (b - a);  fc = f(c)\<close>.
\<close>

definition move_b :: "(double \<Rightarrow> 'e + real) \<Rightarrow> bracket \<Rightarrow> double list \<Rightarrow> ('e error + bracket) \<times> double list" where
  "move_b f s evals =
     (let b = s_d s; d = s_c s; fd = s_fc s;
          c = dsub b (dmul gr (dsub b (s_a s)))
      in case call f c evals of
           (Inl e, evals') \<Rightarrow> (Inl e, evals')
         | (Inr fc, evals') \<Rightarrow>
             (Inr (s\<lparr>s_b := b, s_c := c, s_d := d, s_fc := fc, s_fd := fd\<rparr>), evals'))"

text \<open>
  Lines 58-60 and 67-69:
  \<^verbatim>\<open>a, c, fc = c, d, fd;  d = a + gr * (b - a);  fd = f(d)\<close>.
\<close>

definition move_a :: "(double \<Rightarrow> 'e + real) \<Rightarrow> bracket \<Rightarrow> double list \<Rightarrow> ('e error + bracket) \<times> double list" where
  "move_a f s evals =
     (let a = s_c s; c = s_d s; fc = s_fd s;
          d = dadd a (dmul gr (dsub (s_b s) a))
      in case call f d evals of
           (Inl e, evals') \<Rightarrow> (Inl e, evals')
         | (Inr fd, evals') \<Rightarrow>
             (Inr (s\<lparr>s_a := a, s_c := c, s_d := d, s_fc := fc, s_fd := fd\<rparr>), evals'))"

text \<open>Lines 52-70: the loop body, with \<^verbatim>\<open>it += 1\<close> after the branch.\<close>

definition body :: "(double \<Rightarrow> 'e + real) \<Rightarrow> bool \<Rightarrow> bracket \<Rightarrow> double list \<Rightarrow> ('e error + bracket) \<times> double list" where
  "body f minimize s evals =
     (case (if minimize then
              (if s_fc s < s_fd s then move_b f s evals else move_a f s evals)
            else
              (if s_fc s > s_fd s then move_b f s evals else move_a f s evals)) of
        (Inl e, evals') \<Rightarrow> (Inl e, evals')
      | (Inr s', evals') \<Rightarrow> (Inr (s'\<lparr>s_it := s_it s' + 1\<rparr>), evals'))"

text \<open>Line 49: \<^verbatim>\<open>while (b - a) > tol and it < max_iter\<close>.\<close>

function loop :: "(double \<Rightarrow> 'e + real) \<Rightarrow> double \<Rightarrow> int \<Rightarrow> bool \<Rightarrow> bracket \<Rightarrow> double list \<Rightarrow> ('e error + bracket) \<times> double list" where
  "loop f tol max_iter minimize s evals =
     (if dgt (dsub (s_b s) (s_a s)) tol \<and> s_it s < max_iter then
        (case body f minimize s evals of
           (Inl e, evals') \<Rightarrow> (Inl e, evals')
         | (Inr s', evals') \<Rightarrow> loop f tol max_iter minimize s' evals')
      else (Inr s, evals))"
  by pat_completeness auto
termination
proof (relation "measure (\<lambda>(f, tol, max_iter, minimize, s, evals). nat (max_iter - s_it s))")
  show "wf (measure (\<lambda>(f, tol, max_iter, minimize, s, evals). nat (max_iter - s_it s)))"
    by simp
next
  fix f :: "double \<Rightarrow> 'e + real" and tol max_iter minimize s evals x evals' s'
  assume "dgt (dsub (s_b s) (s_a s)) tol \<and> s_it s < max_iter"
    and "(x, evals') = body f minimize s evals" and "x = Inr s'"
  then show "((f, tol, max_iter, minimize, s', evals'), (f, tol, max_iter, minimize, s, evals))
      \<in> measure (\<lambda>(f, tol, max_iter, minimize, s, evals). nat (max_iter - s_it s))"
    by (auto simp: body_def move_a_def move_b_def call_def Let_def
          split: if_splits sum.splits prod.splits)
qed
declare loop.simps [simp del]

text \<open>Lines 43-47: the two initial evaluations and \<^verbatim>\<open>it = 0\<close>.\<close>

definition init :: "(double \<Rightarrow> 'e + real) \<Rightarrow> double \<Rightarrow> double \<Rightarrow> ('e error + bracket) \<times> double list" where
  "init f a b =
     (let c = dsub b (dmul gr (dsub b a));
          d = dadd a (dmul gr (dsub b a))
      in case call f c [] of
           (Inl e, evals1) \<Rightarrow> (Inl e, evals1)
         | (Inr fc, evals1) \<Rightarrow>
             (case call f d evals1 of
                (Inl e, evals2) \<Rightarrow> (Inl e, evals2)
              | (Inr fd, evals2) \<Rightarrow>
                  (Inr \<lparr>s_a = a, s_b = b, s_c = c, s_d = d, s_fc = fc, s_fd = fd, s_it = 0\<rparr>,
                   evals2)))"

text \<open>Lines 43-70: the state in which the loop is left.\<close>

definition final_state :: "(double \<Rightarrow> 'e + real) \<Rightarrow> double \<Rightarrow> double \<Rightarrow> double \<Rightarrow> int \<Rightarrow> bool \<Rightarrow> ('e error + bracket) \<times> double list" where
  "final_state f a b tol max_iter minimize =
     (case init f a b of
        (Inl e, evals) \<Rightarrow> (Inl e, evals)
      | (Inr s0, evals) \<Rightarrow> loop f tol max_iter minimize s0 evals)"

text \<open>Lines 73-78: \<^verbatim>\<open>if (fc < fd) == minimize\<close>, and the returned triple.\<close>

definition pick :: "bool \<Rightarrow> bracket \<Rightarrow> double \<times> real \<times> int" where
  "pick minimize s =
     (if (s_fc s < s_fd s) = minimize then (s_c s, s_fc s, s_it s)
      else (s_d s, s_fd s, s_it s))"

text \<open>
  The whole function. The result is the outcome (the exception raised, or the triple
  \<^verbatim>\<open>(x_opt, f_opt, it)\<close>) and the points at which \<^verbatim>\<open>f\<close> was called.
\<close>

definition golden_section_search :: "(double \<Rightarrow> 'e + real) \<Rightarrow> double \<Rightarrow> double \<Rightarrow> double \<Rightarrow> int \<Rightarrow> bool \<Rightarrow> ('e error + double \<times> real \<times> int) \<times> double list" where
  "golden_section_search f a b tol max_iter minimize =
     (if dge a b then (Inl (ValueError ''Require a < b for the search interval''), [])
      else
        (case final_state f a b tol max_iter minimize of
           (Inl e, evals) \<Rightarrow> (Inl e, evals)
         | (Inr s, evals) \<Rightarrow> (Inr (pick minimize s), evals)))"

section \<open>Auxiliary definitions for the proofs\<close>

text \<open>
  None of the following is part of the program. They name what the loop does so that the
  properties can be stated: the branch the body takes, the one new point at which it
  calls \<^verbatim>\<open>f\<close>, the state after the body when that call returns \<open>y\<close>, the loop
  condition, and the list of the states in which the loop condition is tested
  (\<open>trajectory\<close>, which has the recursion of \<open>loop\<close> and collects the states instead of
  returning the last one).
\<close>

definition takes_b :: "bool \<Rightarrow> bracket \<Rightarrow> bool" where
  "takes_b minimize s = (if minimize then s_fc s < s_fd s else s_fc s > s_fd s)"

definition probe :: "bool \<Rightarrow> bracket \<Rightarrow> double" where
  "probe minimize s =
     (if takes_b minimize s then dsub (s_d s) (dmul gr (dsub (s_d s) (s_a s)))
      else dadd (s_c s) (dmul gr (dsub (s_b s) (s_c s))))"

definition advance :: "bool \<Rightarrow> bracket \<Rightarrow> real \<Rightarrow> bracket" where
  "advance minimize s y =
     (if takes_b minimize s then
        s\<lparr>s_b := s_d s, s_c := probe minimize s, s_d := s_c s, s_fc := y, s_fd := s_fc s,
          s_it := s_it s + 1\<rparr>
      else
        s\<lparr>s_a := s_c s, s_c := s_d s, s_d := probe minimize s, s_fc := s_fd s, s_fd := y,
          s_it := s_it s + 1\<rparr>)"

definition continues :: "double \<Rightarrow> int \<Rightarrow> bracket \<Rightarrow> bool" where
  "continues tol max_iter s \<longleftrightarrow> dgt (dsub (s_b s) (s_a s)) tol \<and> s_it s < max_iter"

function trajectory :: "(double \<Rightarrow> 'e + real) \<Rightarrow> double \<Rightarrow> int \<Rightarrow> bool \<Rightarrow> bracket \<Rightarrow> double list \<Rightarrow> bracket list" where
  "trajectory f tol max_iter minimize s evals =
     (if dgt (dsub (s_b s) (s_a s)) tol \<and> s_it s < max_iter then
        (case body f minimize s evals of
           (Inl e, evals') \<Rightarrow> [s]
         | (Inr s', evals') \<Rightarrow> s # trajectory f tol max_iter minimize s' evals')
      else [s])"
  by pat_completeness auto
termination
proof (relation "measure (\<lambda>(f, tol, max_iter, minimize, s, evals). nat (max_iter - s_it s))")
  show "wf (measure (\<lambda>(f, tol, max_iter, minimize, s, evals). nat (max_iter - s_it s)))"
    by simp
next
  fix f :: "double \<Rightarrow> 'e + real" and tol max_iter minimize s evals x evals' s'
  assume "dgt (dsub (s_b s) (s_a s)) tol \<and> s_it s < max_iter"
    and "(x, evals') = body f minimize s evals" and "x = Inr s'"
  then show "((f, tol, max_iter, minimize, s', evals'), (f, tol, max_iter, minimize, s, evals))
      \<in> measure (\<lambda>(f, tol, max_iter, minimize, s, evals). nat (max_iter - s_it s))"
    by (auto simp: body_def move_a_def move_b_def call_def Let_def
          split: if_splits sum.splits prod.splits)
qed
declare trajectory.simps [simp del]

text \<open>The states of one call of \<^verbatim>\<open>golden_section_search\<close> at the loop head.\<close>

definition search_trajectory :: "(double \<Rightarrow> 'e + real) \<Rightarrow> double \<Rightarrow> double \<Rightarrow> double \<Rightarrow> int \<Rightarrow> bool \<Rightarrow> bracket list" where
  "search_trajectory f a b tol max_iter minimize =
     (if dge a b then []
      else
        (case init f a b of
           (Inl e, evals) \<Rightarrow> []
         | (Inr s0, evals) \<Rightarrow> trajectory f tol max_iter minimize s0 evals))"

text \<open>
  What the loop keeps: the cached values are the values of \<^verbatim>\<open>f\<close> at \<open>c\<close> and \<open>d\<close>; \<open>c\<close>
  (or \<open>d\<close>) is the point that lines 43 and 55 (44 and 59) compute from the current
  bracket.
\<close>

definition cached :: "(double \<Rightarrow> 'e + real) \<Rightarrow> bracket \<Rightarrow> bool" where
  "cached f s \<longleftrightarrow> f (s_c s) = Inr (s_fc s) \<and> f (s_d s) = Inr (s_fd s)"

definition c_fresh :: "bracket \<Rightarrow> bool" where
  "c_fresh s \<longleftrightarrow> s_c s = dsub (s_b s) (dmul gr (dsub (s_b s) (s_a s)))"

definition d_fresh :: "bracket \<Rightarrow> bool" where
  "d_fresh s \<longleftrightarrow> s_d s = dadd (s_a s) (dmul gr (dsub (s_b s) (s_a s)))"




section \<open>Objectives and inputs of the concrete runs\<close>

text \<open>
  \<open>ident\<close>, \<open>valley\<close>, \<open>hill\<close> and \<open>quadratic\<close> are \<open>x\<close>, \<open>(x - 1/2)\<^sup>2\<close>, \<open>-(x - 1/2)\<^sup>2\<close> and
  \<open>(x - 2)\<^sup>2 + 1\<close> at the finite doubles; no real number is their value at an infinity or
  at NaN, where they raise. \<open>sign\<close> is
  \<^verbatim>\<open>-1.0 if x < 0 else (1.0 if x > 0 else 0.0)\<close>, which returns at every double.
  \<open>finite_sin\<close> is \<^verbatim>\<open>math.sin\<close>, which raises \<^verbatim>\<open>ValueError\<close> with the message
  \<^verbatim>\<open>math domain error\<close> at the infinities, and \<open>log_like\<close> is \<^verbatim>\<open>math.log\<close>, which raises
  it at \<open>x \<le> 0\<close>; here both also raise wherever no real number is their value.
  \<open>huge\<close> is \<open>2 ^ 1023\<close>, about \<open>8.99e307\<close>, the largest power of two among the doubles.
\<close>

fun ident :: "double \<Rightarrow> unit + real" where
  "ident (Finite q) = Inr q"
| "ident x = Inl ()"

definition sign :: "double \<Rightarrow> unit + real" where
  "sign x = Inr (if dlt x (Finite 0) then - 1 else if dgt x (Finite 0) then 1 else 0)"




fun quadratic :: "double \<Rightarrow> unit + real" where
  "quadratic (Finite q) = Inr ((q - 2)\<^sup>2 + 1)"
| "quadratic x = Inl ()"


definition huge :: real where
  "huge = 2 ^ 1023"

section \<open>Facts about the arithmetic\<close>

lemma pow2_pos: "0 < pow2 k"
  by (simp add: pow2_def)

lemma pow2_powr: "pow2 k = 2 powr (of_int k)"
proof (cases "0 \<le> k")
  case True
  then show ?thesis
    by (simp add: pow2_def powr_realpow [symmetric])
next
  case False
  have "(2::real) powr (of_int k) = 1 / 2 powr (of_int (- k))"
    by (simp add: powr_minus field_simps)
  also have "of_int (- k) = real (nat (- k))"
    using False by simp
  also have "(2::real) powr real (nat (- k)) = 2 ^ nat (- k)"
    by (simp add: powr_realpow)
  finally show ?thesis using False by (simp add: pow2_def)
qed

lemma expo_eqI:
  assumes "pow2 e \<le> \<bar>x\<bar>" and "\<bar>x\<bar> < pow2 (e + 1)"
  shows "expo x = e"
proof -
  have pos: "0 < \<bar>x\<bar>" using assms(1) pow2_pos [of e] by linarith
  have "of_int e \<le> log 2 \<bar>x\<bar>"
    using assms(1) pos by (simp add: pow2_powr le_log_iff)
  moreover have "log 2 \<bar>x\<bar> < of_int e + 1"
    using assms(2) pos by (simp add: pow2_powr log_less_iff)
  ultimately show ?thesis
    unfolding expo_def by linarith
qed

lemma rne_eqI:
  assumes "of_int n - 1 / 2 < r" and "r < of_int n + 1 / 2"
  shows "rne r = n"
proof (cases "of_int n \<le> r")
  case True
  with assms have "\<lfloor>r\<rfloor> = n" by linarith
  with assms show ?thesis by (simp add: rne_def Let_def)
next
  case False
  with assms have f: "\<lfloor>r\<rfloor> = n - 1" by linarith
  with assms False show ?thesis by (simp add: rne_def Let_def)
qed

lemma round64_finite:
  assumes "pow2 e \<le> \<bar>x\<bar>" and "\<bar>x\<bar> < pow2 (e + 1)"
    and "rne (x / pow2 (max e (- 1022) - 52)) = n"
    and "y = of_int n * pow2 (max e (- 1022) - 52)"
    and "\<bar>y\<bar> < pow2 1024"
  shows "round64 x = Finite y"
proof -
  have "x \<noteq> 0" using assms(1) pow2_pos [of e] by auto
  moreover have "expo x = e" using assms(1,2) by (rule expo_eqI)
  ultimately show ?thesis
    using assms(3-5) by (simp add: round64_def Let_def)
qed

lemma round64_overflow:
  assumes "pow2 e \<le> \<bar>x\<bar>" and "\<bar>x\<bar> < pow2 (e + 1)"
    and "rne (x / pow2 (max e (- 1022) - 52)) = n"
    and "pow2 1024 \<le> \<bar>of_int n * pow2 (max e (- 1022) - 52)\<bar>"
  shows "round64 x = (if 0 < x then PInf else NInf)"
proof -
  have "x \<noteq> 0" using assms(1) pow2_pos [of e] by auto
  moreover have "expo x = e" using assms(1,2) by (rule expo_eqI)
  ultimately show ?thesis
    using assms(3,4) by (simp add: round64_def Let_def)
qed

lemma sqrt5_double: "dsqrt (Finite 5) = Finite (629397181890197 / 281474976710656)"
proof -
  have lo: "5035177455121576 - 1 / 2 < sqrt 5 / pow2 (- 51)"
  proof -
    have "((5035177455121576 - 1 / 2) / 2 ^ 51)\<^sup>2 < (5::real)"
      by (simp add: power2_eq_square)
    then have "(5035177455121576 - 1 / 2) / 2 ^ 51 < sqrt 5"
      by (rule real_less_rsqrt)
    then show ?thesis by (simp add: pow2_def field_simps)
  qed
  have hi: "sqrt 5 / pow2 (- 51) < 5035177455121576 + 1 / 2"
  proof -
    have "(5::real) < ((5035177455121576 + 1 / 2) / 2 ^ 51)\<^sup>2"
      by (simp add: power2_eq_square)
    then have "sqrt 5 < (5035177455121576 + 1 / 2) / 2 ^ 51"
      by (intro real_less_lsqrt) simp_all
    then show ?thesis by (simp add: pow2_def field_simps)
  qed
  have r: "rne (sqrt 5 / pow2 (max 1 (- 1022) - 52)) = 5035177455121576"
    using lo hi by (intro rne_eqI) simp_all
  have b: "pow2 1 \<le> \<bar>sqrt 5\<bar>" "\<bar>sqrt 5\<bar> < pow2 (1 + 1)"
  proof -
    have "2 < sqrt 5" by (rule real_less_rsqrt) simp
    moreover have "sqrt 5 < 4" by (rule real_less_lsqrt) simp_all
    ultimately show "pow2 1 \<le> \<bar>sqrt 5\<bar>" "\<bar>sqrt 5\<bar> < pow2 (1 + 1)"
      by (simp_all add: pow2_def)
  qed
  have "round64 (sqrt 5) = Finite (629397181890197 / 281474976710656)"
    by (rule round64_finite [OF b r]) (simp_all add: pow2_def)
  then show ?thesis by simp
qed

lemmas round64_simps = pow2_def rne_def Let_def

text \<open>The constant of line 42.\<close>

lemma gr_value: "gr = Finite (347922205179541 / 562949953421312)"
proof -
  have 1: "round64 (629397181890197 / 281474976710656 - 1) = Finite (347922205179541 / 281474976710656)"
    by (rule round64_finite [where e = 0]) (simp_all add: round64_simps)
  have 2: "round64 (347922205179541 / 281474976710656 / 2) = Finite (347922205179541 / 562949953421312)"
    by (rule round64_finite [where e = "- 1"]) (simp_all add: round64_simps)
  have "gr = ddiv (dsub (Finite (629397181890197 / 281474976710656)) (Finite 1)) (Finite 2)"
    unfolding gr_def sqrt5_double ..
  then show ?thesis
    using 1 2 by (simp add: dsub_def)
qed

lemma dadd_eval:
  assumes "pow2 e \<le> \<bar>x + y\<bar>" and "\<bar>x + y\<bar> < pow2 (e + 1)"
    and "rne ((x + y) / pow2 (max e (- 1022) - 52)) = n"
    and "z = of_int n * pow2 (max e (- 1022) - 52)"
    and "\<bar>z\<bar> < pow2 1024"
  shows "dadd (Finite x) (Finite y) = Finite z"
  using round64_finite [OF assms] by simp

lemma dsub_eval:
  assumes "pow2 e \<le> \<bar>x - y\<bar>" and "\<bar>x - y\<bar> < pow2 (e + 1)"
    and "rne ((x - y) / pow2 (max e (- 1022) - 52)) = n"
    and "z = of_int n * pow2 (max e (- 1022) - 52)"
    and "\<bar>z\<bar> < pow2 1024"
  shows "dsub (Finite x) (Finite y) = Finite z"
  using round64_finite [OF assms] by (simp add: dsub_def)

lemma dmul_eval:
  assumes "pow2 e \<le> \<bar>x * y\<bar>" and "\<bar>x * y\<bar> < pow2 (e + 1)"
    and "rne ((x * y) / pow2 (max e (- 1022) - 52)) = n"
    and "z = of_int n * pow2 (max e (- 1022) - 52)"
    and "\<bar>z\<bar> < pow2 1024"
  shows "dmul (Finite x) (Finite y) = Finite z"
  using round64_finite [OF assms] by simp

lemma not_dgt: "\<not> dgt x y \<longleftrightarrow> dle x y \<or> x = NaN \<or> y = NaN"
  by (cases x; cases y) (auto simp: dgt_def dle_def)

section \<open>One iteration\<close>

lemma body_it:
  "body f minimize s evals = (Inr s', evals') \<Longrightarrow> s_it s' = s_it s + 1"
  by (auto simp: body_def move_a_def move_b_def call_def Let_def
           split: if_splits sum.splits prod.splits)

lemma body_eq:
  "body f minimize s evals =
     (case f (probe minimize s) of
        Inl e \<Rightarrow> (Inl (EvaluationError e), evals @ [probe minimize s])
      | Inr y \<Rightarrow> (Inr (advance minimize s y), evals @ [probe minimize s]))"
  by (simp add: body_def move_a_def move_b_def call_def Let_def probe_def advance_def takes_b_def
      split: sum.splits)

lemma advance_it: "s_it (advance minimize s y) = s_it s + 1"
  by (simp add: advance_def)

lemma advance_cached:
  "cached f s \<Longrightarrow> f (probe minimize s) = Inr y \<Longrightarrow> cached f (advance minimize s y)"
  by (simp add: cached_def advance_def)

lemma advance_fresh:
  "(takes_b minimize s \<longrightarrow> c_fresh (advance minimize s y)) \<and>
   (\<not> takes_b minimize s \<longrightarrow> d_fresh (advance minimize s y))"
  by (simp add: advance_def probe_def c_fresh_def d_fresh_def)

section \<open>The loop\<close>

lemma loop_unfold:
  "loop f tol max_iter minimize s evals =
     (if continues tol max_iter s then
        (case f (probe minimize s) of
           Inl e \<Rightarrow> (Inl (EvaluationError e), evals @ [probe minimize s])
         | Inr y \<Rightarrow> loop f tol max_iter minimize (advance minimize s y) (evals @ [probe minimize s]))
      else (Inr s, evals))"
  by (subst loop.simps) (simp add: body_eq continues_def split: sum.splits)

lemma trajectory_unfold:
  "trajectory f tol max_iter minimize s evals =
     (if continues tol max_iter s then
        (case f (probe minimize s) of
           Inl e \<Rightarrow> [s]
         | Inr y \<Rightarrow> s # trajectory f tol max_iter minimize (advance minimize s y) (evals @ [probe minimize s]))
      else [s])"
  by (subst trajectory.simps) (simp add: body_eq continues_def split: sum.splits)

lemma loop_induct [case_names step]:
  assumes step: "\<And>s evals.
     (\<And>y. continues tol max_iter s \<Longrightarrow> f (probe minimize s) = Inr y \<Longrightarrow>
        P (advance minimize s y) (evals @ [probe minimize s])) \<Longrightarrow> P s evals"
  shows "P s evals"
proof -
  have "f' = f \<Longrightarrow> tol' = tol \<Longrightarrow> max_iter' = max_iter \<Longrightarrow> minimize' = minimize \<Longrightarrow> P s evals"
    for f' tol' max_iter' minimize'
  proof (induction f' tol' max_iter' minimize' s evals rule: loop.induct)
    case (1 f' tol' max_iter' minimize' s evals)
    show ?case
    proof (rule step)
      fix y
      assume "continues tol max_iter s" and "f (probe minimize s) = Inr y"
      then show "P (advance minimize s y) (evals @ [probe minimize s])"
        using "1.IH" [of "Inr (advance minimize s y)" "evals @ [probe minimize s]" "advance minimize s y"]
          "1.prems"
        by (simp add: body_eq continues_def)
    qed
  qed
  then show ?thesis by simp
qed

lemma loop_counts:
  "loop f tol max_iter minimize s evals = (Inr s', evals') \<Longrightarrow>
     s_it s \<le> s_it s' \<and> (s_it s \<le> max_iter \<longrightarrow> s_it s' \<le> max_iter) \<and>
     (max_iter \<le> s_it s \<longrightarrow> s' = s) \<and>
     (s_it s' < max_iter \<longrightarrow> \<not> dgt (dsub (s_b s') (s_a s')) tol) \<and>
     int (length evals') = int (length evals) + (s_it s' - s_it s)"
proof (induction s evals rule: loop_induct [where f = f and tol = tol and max_iter = max_iter and minimize = minimize])
  case (step s evals)
  show ?case
  proof (cases "continues tol max_iter s")
    case True
    with step.prems obtain y where y: "f (probe minimize s) = Inr y"
      and l: "loop f tol max_iter minimize (advance minimize s y) (evals @ [probe minimize s]) = (Inr s', evals')"
      by (subst (asm) loop_unfold) (auto split: sum.splits)
    from step.IH [OF True y l] True show ?thesis
      by (auto simp: advance_it continues_def)
  next
    case False
    with step.prems have "s' = s" "evals' = evals"
      by (subst (asm) loop_unfold; simp)+
    with False show ?thesis by (auto simp: continues_def)
  qed
qed


lemma loop_returns_calls:
  "loop f tol max_iter minimize s evals = (Inr s', evals') \<Longrightarrow>
     \<exists>new. evals' = evals @ new \<and> (\<forall>z\<in>set new. \<exists>v. f z = Inr v)"
proof (induction s evals rule: loop_induct [where f = f and tol = tol and max_iter = max_iter and minimize = minimize])
  case (step s evals)
  show ?case
  proof (cases "continues tol max_iter s")
    case True
    with step.prems obtain y where y: "f (probe minimize s) = Inr y"
      and l: "loop f tol max_iter minimize (advance minimize s y) (evals @ [probe minimize s]) = (Inr s', evals')"
      by (subst (asm) loop_unfold) (auto split: sum.splits)
    from step.IH [OF True y l]
    obtain new where "evals' = (evals @ [probe minimize s]) @ new" "\<forall>z\<in>set new. \<exists>v. f z = Inr v"
      by blast
    with y show ?thesis by (intro exI [of _ "probe minimize s # new"]) simp
  next
    case False
    with step.prems have "evals' = evals"
      by (subst (asm) loop_unfold; simp)
    then show ?thesis by simp
  qed
qed

lemma loop_total:
  "(\<forall>x. \<exists>y. f x = Inr y) \<Longrightarrow>
     \<exists>s' evals'. loop f tol max_iter minimize s evals = (Inr s', evals')"
proof (induction s evals rule: loop_induct [where f = f and tol = tol and max_iter = max_iter and minimize = minimize])
  case (step s evals)
  show ?case
  proof (cases "continues tol max_iter s")
    case True
    from step.prems obtain y where y: "f (probe minimize s) = Inr y" by blast
    from step.IH [OF True y step.prems] True y
    show ?thesis by (subst loop_unfold) simp
  next
    case False
    then show ?thesis by (subst loop_unfold) simp
  qed
qed

lemma loop_cached:
  "cached f s \<Longrightarrow> s_c s \<in> set evals \<Longrightarrow> s_d s \<in> set evals \<Longrightarrow>
   loop f tol max_iter minimize s evals = (Inr s', evals') \<Longrightarrow>
     cached f s' \<and> s_c s' \<in> set evals' \<and> s_d s' \<in> set evals'"
proof (induction s evals rule: loop_induct [where f = f and tol = tol and max_iter = max_iter and minimize = minimize])
  case (step s evals)
  show ?case
  proof (cases "continues tol max_iter s")
    case True
    with step.prems(4) obtain y where y: "f (probe minimize s) = Inr y"
      and l: "loop f tol max_iter minimize (advance minimize s y) (evals @ [probe minimize s]) = (Inr s', evals')"
      by (subst (asm) loop_unfold) (auto split: sum.splits)
    have c: "s_c (advance minimize s y) \<in> set (evals @ [probe minimize s])"
      and d: "s_d (advance minimize s y) \<in> set (evals @ [probe minimize s])"
      using step.prems(2,3) by (simp_all add: advance_def)
    from step.IH [OF True y advance_cached [OF step.prems(1) y] c d l] show ?thesis .
  next
    case False
    with step.prems(4) have "s' = s" "evals' = evals"
      by (subst (asm) loop_unfold; simp)+
    with step.prems show ?thesis by simp
  qed
qed

lemma loop_stops:
  "\<not> continues tol max_iter s \<Longrightarrow> loop f tol max_iter minimize s evals = (Inr s, evals)"
  by (subst loop_unfold) simp

lemma loop_steps:
  "continues tol max_iter s \<Longrightarrow> f (probe minimize s) = Inr y \<Longrightarrow>
     loop f tol max_iter minimize s evals =
       loop f tol max_iter minimize (advance minimize s y) (evals @ [probe minimize s])"
  by (subst loop_unfold) simp


lemma loop_zero_cap:
  "s_it s = 0 \<Longrightarrow> max_iter \<le> 0 \<Longrightarrow> loop f tol max_iter minimize s evals = (Inr s, evals)"
  by (rule loop_stops) (simp add: continues_def)

section \<open>The states at the loop head\<close>

lemma trajectory_hd:
  "trajectory f tol max_iter minimize s evals \<noteq> [] \<and> hd (trajectory f tol max_iter minimize s evals) = s"
  by (subst (1 2) trajectory_unfold) (simp split: sum.splits)

lemma trajectory_nth0: "trajectory f tol max_iter minimize s evals ! 0 = s"
  by (subst trajectory_unfold) (simp split: sum.splits)

lemma trajectory_last:
  "loop f tol max_iter minimize s evals = (Inr s', evals') \<Longrightarrow>
     last (trajectory f tol max_iter minimize s evals) = s' \<and>
     int (length (trajectory f tol max_iter minimize s evals)) = s_it s' - s_it s + 1 \<and>
     evals' = evals @ map (probe minimize) (butlast (trajectory f tol max_iter minimize s evals))"
proof (induction s evals rule: loop_induct [where f = f and tol = tol and max_iter = max_iter and minimize = minimize])
  case (step s evals)
  show ?case
  proof (cases "continues tol max_iter s")
    case True
    with step.prems obtain y where y: "f (probe minimize s) = Inr y"
      and l: "loop f tol max_iter minimize (advance minimize s y) (evals @ [probe minimize s]) = (Inr s', evals')"
      by (subst (asm) loop_unfold) (auto split: sum.splits)
    from step.IH [OF True y l] True y trajectory_hd [of f tol max_iter minimize "advance minimize s y" "evals @ [probe minimize s]"]
    show ?thesis
      by (subst (1 2 3) trajectory_unfold) (simp add: advance_it)
  next
    case False
    with step.prems have "s' = s" "evals' = evals"
      by (subst (asm) loop_unfold; simp)+
    with False show ?thesis by (subst (1 2 3) trajectory_unfold) simp
  qed
qed

lemma trajectory_step:
  "Suc i < length (trajectory f tol max_iter minimize s evals) \<Longrightarrow>
     continues tol max_iter (trajectory f tol max_iter minimize s evals ! i) \<and>
     (\<exists>y. f (probe minimize (trajectory f tol max_iter minimize s evals ! i)) = Inr y \<and>
        trajectory f tol max_iter minimize s evals ! Suc i =
          advance minimize (trajectory f tol max_iter minimize s evals ! i) y)"
proof (induction s evals arbitrary: i rule: loop_induct [where f = f and tol = tol and max_iter = max_iter and minimize = minimize])
  case (step s evals)
  show ?case
  proof (cases "continues tol max_iter s")
    case True
    show ?thesis
    proof (cases "f (probe minimize s)")
      case (Inl e)
      with True step.prems show ?thesis
        by (subst (asm) trajectory_unfold) simp
    next
      case (Inr y)
      let ?rest = "trajectory f tol max_iter minimize (advance minimize s y) (evals @ [probe minimize s])"
      from True Inr have tr: "trajectory f tol max_iter minimize s evals = s # ?rest"
        by (subst trajectory_unfold) simp
      have hd: "?rest ! 0 = advance minimize s y"
        by (rule trajectory_nth0)
      show ?thesis
      proof (cases i)
        case 0
        with tr hd True Inr show ?thesis by simp
      next
        case (Suc j)
        with step.prems tr have "Suc j < length ?rest" by simp
        from step.IH [OF True Inr this] Suc tr show ?thesis by simp
      qed
    qed
  next
    case False
    with step.prems show ?thesis
      by (subst (asm) trajectory_unfold) simp
  qed
qed

lemma trajectory_inv:
  "cached f s \<Longrightarrow> c_fresh s \<or> d_fresh s \<Longrightarrow>
   t \<in> set (trajectory f tol max_iter minimize s evals) \<Longrightarrow>
     cached f t \<and> (c_fresh t \<or> d_fresh t)"
proof (induction s evals rule: loop_induct [where f = f and tol = tol and max_iter = max_iter and minimize = minimize])
  case (step s evals)
  show ?case
  proof (cases "continues tol max_iter s")
    case True
    show ?thesis
    proof (cases "f (probe minimize s)")
      case (Inl e)
      with True step.prems(3) have "t = s"
        by (subst (asm) trajectory_unfold) simp
      with step.prems(1,2) show ?thesis by simp
    next
      case (Inr y)
      with True step.prems(3)
      have "t = s \<or> t \<in> set (trajectory f tol max_iter minimize (advance minimize s y) (evals @ [probe minimize s]))"
        by (subst (asm) trajectory_unfold) simp
      then show ?thesis
      proof
        assume "t = s"
        with step.prems(1,2) show ?thesis by simp
      next
        assume t: "t \<in> set (trajectory f tol max_iter minimize (advance minimize s y) (evals @ [probe minimize s]))"
        have "c_fresh (advance minimize s y) \<or> d_fresh (advance minimize s y)"
          using advance_fresh [of minimize s y] by blast
        from step.IH [OF True Inr advance_cached [OF step.prems(1) Inr] this t]
        show ?thesis .
      qed
    qed
  next
    case False
    with step.prems(3) have "t = s"
      by (subst (asm) trajectory_unfold) simp
    with step.prems(1,2) show ?thesis by simp
  qed
qed

lemma trajectory_stops:
  "\<not> continues tol max_iter s \<Longrightarrow> trajectory f tol max_iter minimize s evals = [s]"
  by (subst trajectory_unfold) simp

lemma trajectory_steps:
  "continues tol max_iter s \<Longrightarrow> f (probe minimize s) = Inr y \<Longrightarrow>
     trajectory f tol max_iter minimize s evals =
       s # trajectory f tol max_iter minimize (advance minimize s y) (evals @ [probe minimize s])"
  by (subst trajectory_unfold) simp

lemma trajectory_zero_cap:
  "s_it s = 0 \<Longrightarrow> max_iter \<le> 0 \<Longrightarrow> trajectory f tol max_iter minimize s evals = [s]"
  by (rule trajectory_stops) (simp add: continues_def)

section \<open>The whole call\<close>

lemma init_eq:
  "init f a b =
     (case f (dsub b (dmul gr (dsub b a))) of
        Inl e \<Rightarrow> (Inl (EvaluationError e), [dsub b (dmul gr (dsub b a))])
      | Inr fc \<Rightarrow>
          (case f (dadd a (dmul gr (dsub b a))) of
             Inl e \<Rightarrow> (Inl (EvaluationError e),
                        [dsub b (dmul gr (dsub b a)), dadd a (dmul gr (dsub b a))])
           | Inr fd \<Rightarrow>
               (Inr \<lparr>s_a = a, s_b = b, s_c = dsub b (dmul gr (dsub b a)),
                     s_d = dadd a (dmul gr (dsub b a)), s_fc = fc, s_fd = fd, s_it = 0\<rparr>,
                [dsub b (dmul gr (dsub b a)), dadd a (dmul gr (dsub b a))])))"
  by (simp add: init_def call_def Let_def split: sum.splits)

lemma init_returns:
  assumes "init f a b = (Inr s0, evals)"
  shows "s_a s0 = a" and "s_b s0 = b" and "s_it s0 = 0"
    and "s_c s0 = dsub b (dmul gr (dsub b a))" and "s_d s0 = dadd a (dmul gr (dsub b a))"
    and "f (dsub b (dmul gr (dsub b a))) = Inr (s_fc s0)"
    and "f (dadd a (dmul gr (dsub b a))) = Inr (s_fd s0)"
    and "evals = [dsub b (dmul gr (dsub b a)), dadd a (dmul gr (dsub b a))]"
  using assms by (auto simp: init_eq split: sum.splits)

lemma init_inv:
  assumes "init f a b = (Inr s0, evals)"
  shows "cached f s0" and "c_fresh s0" and "d_fresh s0"
    and "s_c s0 \<in> set evals" and "s_d s0 \<in> set evals"
  using init_returns [OF assms] by (simp_all add: cached_def c_fresh_def d_fresh_def)


lemma final_state_cases:
  obtains (raised) e evals where "init f a b = (Inl e, evals)"
      and "final_state f a b tol max_iter minimize = (Inl e, evals)"
  | (entered) s0 evals0 where "init f a b = (Inr s0, evals0)"
      and "final_state f a b tol max_iter minimize = loop f tol max_iter minimize s0 evals0"
proof (cases "init f a b")
  case (Pair r evals)
  then show ?thesis
    by (cases r) (auto simp: final_state_def intro: that)
qed

lemma final_state_returns:
  assumes "final_state f a b tol max_iter minimize = (Inr s, evals)"
  shows "0 \<le> s_it s" and "0 \<le> max_iter \<Longrightarrow> s_it s \<le> max_iter"
    and "max_iter \<le> 0 \<Longrightarrow> s_it s = 0"
    and "s_it s < max_iter \<Longrightarrow> \<not> dgt (dsub (s_b s) (s_a s)) tol"
    and "int (length evals) = s_it s + 2"
    and "\<forall>x\<in>set evals. \<exists>v. f x = Inr v"
    and "cached f s" and "s_c s \<in> set evals" and "s_d s \<in> set evals"
proof -
  from assms obtain s0 evals0 where i: "init f a b = (Inr s0, evals0)"
    and l: "loop f tol max_iter minimize s0 evals0 = (Inr s, evals)"
    by (cases rule: final_state_cases [of f a b tol max_iter minimize]) auto
  note r = init_returns [OF i]
  note cnt = loop_counts [OF l]
  show "0 \<le> s_it s" using cnt r by simp
  show "s_it s \<le> max_iter" if "0 \<le> max_iter" using cnt r that by simp
  show "s_it s = 0" if "max_iter \<le> 0" using cnt r that by auto
  show "\<not> dgt (dsub (s_b s) (s_a s)) tol" if "s_it s < max_iter" using cnt that by simp
  show "int (length evals) = s_it s + 2" using cnt r by simp
  from loop_returns_calls [OF l] obtain new where "evals = evals0 @ new" "\<forall>z\<in>set new. \<exists>v. f z = Inr v"
    by blast
  then show "\<forall>x\<in>set evals. \<exists>v. f x = Inr v" using r by auto
  from loop_cached [OF init_inv(1,4,5) [OF i] l]
  show "cached f s" "s_c s \<in> set evals" "s_d s \<in> set evals" by simp_all
qed


lemma final_state_total:
  assumes "\<forall>x. \<exists>y. f x = Inr y"
  shows "\<exists>s evals. final_state f a b tol max_iter minimize = (Inr s, evals)"
proof -
  from assms obtain fc fd where "f (dsub b (dmul gr (dsub b a))) = Inr fc"
    "f (dadd a (dmul gr (dsub b a))) = Inr fd"
    by metis
  then obtain s0 evals0 where i: "init f a b = (Inr s0, evals0)"
    by (simp add: init_eq)
  from loop_total [OF assms, of tol max_iter minimize s0 evals0] i
  show ?thesis by (simp add: final_state_def)
qed

lemma search_eq:
  "\<not> dge a b \<Longrightarrow> golden_section_search f a b tol max_iter minimize =
     (case final_state f a b tol max_iter minimize of
        (Inl e, evals) \<Rightarrow> (Inl e, evals)
      | (Inr s, evals) \<Rightarrow> (Inr (pick minimize s), evals))"
  by (simp add: golden_section_search_def)

lemma search_returns:
  assumes "golden_section_search f a b tol max_iter minimize = (Inr r, evals)"
  obtains s where "\<not> dge a b" and "final_state f a b tol max_iter minimize = (Inr s, evals)"
    and "r = pick minimize s"
proof -
  from assms have ab: "\<not> dge a b"
    by (auto simp: golden_section_search_def split: if_splits)
  with assms show ?thesis
    by (auto simp: search_eq split: prod.splits sum.splits intro: that)
qed

lemma pick_it: "snd (snd (pick minimize s)) = s_it s"
  by (simp add: pick_def)

lemma search_total:
  assumes "\<not> dge a b" and "\<forall>x. \<exists>y. f x = Inr y"
  shows "\<exists>r evals. golden_section_search f a b tol max_iter minimize = (Inr r, evals)"
proof -
  from final_state_total [OF assms(2)] obtain s evals
    where "final_state f a b tol max_iter minimize = (Inr s, evals)" by blast
  with assms(1) have "golden_section_search f a b tol max_iter minimize = (Inr (pick minimize s), evals)"
    by (simp add: search_eq)
  then show ?thesis by blast
qed

lemma body_evals: "snd (body f minimize s evals) = evals @ [probe minimize s]"
  by (simp add: body_eq split: sum.splits)


lemma search_trajectory_eq:
  "\<not> dge a b \<Longrightarrow> init f a b = (Inr s0, evals0) \<Longrightarrow>
     search_trajectory f a b tol max_iter minimize = trajectory f tol max_iter minimize s0 evals0"
  by (simp add: search_trajectory_def)

lemma search_trajectory_cases:
  obtains (empty) "search_trajectory f a b tol max_iter minimize = []"
  | (entered) s0 evals0 where "\<not> dge a b" and "init f a b = (Inr s0, evals0)"
      and "search_trajectory f a b tol max_iter minimize = trajectory f tol max_iter minimize s0 evals0"
proof (cases "dge a b")
  case True
  then show ?thesis by (simp add: search_trajectory_def that(1))
next
  case False
  obtain r evals0 where i: "init f a b = (r, evals0)" by (cases "init f a b")
  show ?thesis
  proof (cases r)
    case (Inl e)
    with False i show ?thesis by (simp add: search_trajectory_def that(1))
  next
    case (Inr s0)
    with False i show ?thesis by (simp add: search_trajectory_def that(2))
  qed
qed

lemma search_trajectory_step:
  assumes "Suc i < length (search_trajectory f a b tol max_iter minimize)"
  shows "continues tol max_iter (search_trajectory f a b tol max_iter minimize ! i)"
    and "\<exists>y. f (probe minimize (search_trajectory f a b tol max_iter minimize ! i)) = Inr y \<and>
           search_trajectory f a b tol max_iter minimize ! Suc i =
             advance minimize (search_trajectory f a b tol max_iter minimize ! i) y"
proof -
  from assms obtain s0 evals0 where ab: "\<not> dge a b" and i: "init f a b = (Inr s0, evals0)"
    and tr: "search_trajectory f a b tol max_iter minimize = trajectory f tol max_iter minimize s0 evals0"
    by (cases rule: search_trajectory_cases [of f a b tol max_iter minimize]) auto
  from trajectory_step [of i f tol max_iter minimize s0 evals0] assms tr
  show "continues tol max_iter (search_trajectory f a b tol max_iter minimize ! i)"
    and "\<exists>y. f (probe minimize (search_trajectory f a b tol max_iter minimize ! i)) = Inr y \<and>
           search_trajectory f a b tol max_iter minimize ! Suc i =
             advance minimize (search_trajectory f a b tol max_iter minimize ! i) y"
    by simp_all
qed

lemma search_trajectory_final:
  assumes "\<not> dge a b" and "final_state f a b tol max_iter minimize = (Inr s, evals)"
  shows "search_trajectory f a b tol max_iter minimize \<noteq> []"
    and "s_a (hd (search_trajectory f a b tol max_iter minimize)) = a"
    and "s_b (hd (search_trajectory f a b tol max_iter minimize)) = b"
    and "last (search_trajectory f a b tol max_iter minimize) = s"
    and "int (length (search_trajectory f a b tol max_iter minimize)) = s_it s + 1"
    and "evals = [dsub b (dmul gr (dsub b a)), dadd a (dmul gr (dsub b a))] @
           map (probe minimize) (butlast (search_trajectory f a b tol max_iter minimize))"
proof -
  from assms(2) obtain s0 evals0 where i: "init f a b = (Inr s0, evals0)"
    and l: "loop f tol max_iter minimize s0 evals0 = (Inr s, evals)"
    by (cases rule: final_state_cases [of f a b tol max_iter minimize]) auto
  note tr = search_trajectory_eq [OF assms(1) i, of tol max_iter minimize]
  note r = init_returns [OF i]
  from trajectory_hd [of f tol max_iter minimize s0 evals0] trajectory_last [OF l] tr r
  show "search_trajectory f a b tol max_iter minimize \<noteq> []"
    and "s_a (hd (search_trajectory f a b tol max_iter minimize)) = a"
    and "s_b (hd (search_trajectory f a b tol max_iter minimize)) = b"
    and "last (search_trajectory f a b tol max_iter minimize) = s"
    and "int (length (search_trajectory f a b tol max_iter minimize)) = s_it s + 1"
    and "evals = [dsub b (dmul gr (dsub b a)), dadd a (dmul gr (dsub b a))] @
           map (probe minimize) (butlast (search_trajectory f a b tol max_iter minimize))"
    by simp_all
qed

section \<open>Negating the objective\<close>










section \<open>Concrete runs\<close>

text \<open>
  The unit bracket. Minimizing \<open>ident\<close> on \<open>[0, 1]\<close> with tolerance \<open>1/2\<close>: the initial points
  are \<open>c = 0.3819660112501051\<close> and \<open>d = gr = 0.6180339887498949\<close>; two iterations, each
  moving \<open>b\<close>, with the new points \<open>0.2360679774997897\<close> and \<open>0.1458980337503154\<close>; the loop
  is left because the length \<open>0.3819660112501051\<close> is not greater than \<open>1/2\<close>.
  The operations of the run come first, then the run.
\<close>

lemma ops_unit:
  "dsub (Finite 1) (Finite 0) = Finite 1"
  "dmul (Finite (347922205179541 / 562949953421312)) (Finite 1) =
     Finite (347922205179541 / 562949953421312)"
  "dsub (Finite 1) (Finite (347922205179541 / 562949953421312)) =
     Finite (215027748241771 / 562949953421312)"
  "dadd (Finite 0) (Finite (347922205179541 / 562949953421312)) =
     Finite (347922205179541 / 562949953421312)"
proof -
  show "dsub (Finite 1) (Finite 0) = Finite 1"
    by (rule dsub_eval [where e = 0]) (simp_all add: round64_simps)
  show "dmul (Finite (347922205179541 / 562949953421312)) (Finite 1) =
     Finite (347922205179541 / 562949953421312)"
    by (rule dmul_eval [where e = "- 1"]) (simp_all add: round64_simps)
  show "dsub (Finite 1) (Finite (347922205179541 / 562949953421312)) =
     Finite (215027748241771 / 562949953421312)"
    by (rule dsub_eval [where e = "- 2"]) (simp_all add: round64_simps)
  show "dadd (Finite 0) (Finite (347922205179541 / 562949953421312)) =
     Finite (347922205179541 / 562949953421312)"
    by (rule dadd_eval [where e = "- 1"]) (simp_all add: round64_simps)
qed

lemma ops_first:
  "dsub (Finite (347922205179541 / 562949953421312)) (Finite 0) =
     Finite (347922205179541 / 562949953421312)"
  "dmul (Finite (347922205179541 / 562949953421312)) (Finite (347922205179541 / 562949953421312)) =
     Finite (3440443971868337 / 9007199254740992)"
  "dsub (Finite (347922205179541 / 562949953421312)) (Finite (3440443971868337 / 9007199254740992)) =
     Finite (2126311311004319 / 9007199254740992)"
proof -
  show "dsub (Finite (347922205179541 / 562949953421312)) (Finite 0) =
     Finite (347922205179541 / 562949953421312)"
    by (rule dsub_eval [where e = "- 1"]) (simp_all add: round64_simps)
  show "dmul (Finite (347922205179541 / 562949953421312)) (Finite (347922205179541 / 562949953421312)) =
     Finite (3440443971868337 / 9007199254740992)"
    by (rule dmul_eval [where e = "- 2"]) (simp_all add: round64_simps)
  show "dsub (Finite (347922205179541 / 562949953421312)) (Finite (3440443971868337 / 9007199254740992)) =
     Finite (2126311311004319 / 9007199254740992)"
    by (rule dsub_eval [where e = "- 3"]) (simp_all add: round64_simps)
qed

lemma ops_second:
  "dsub (Finite (215027748241771 / 562949953421312)) (Finite 0) =
     Finite (215027748241771 / 562949953421312)"
  "dmul (Finite (347922205179541 / 562949953421312)) (Finite (215027748241771 / 562949953421312)) =
     Finite (2126311311004319 / 9007199254740992)"
  "dsub (Finite (215027748241771 / 562949953421312)) (Finite (2126311311004319 / 9007199254740992)) =
     Finite (1314132660864017 / 9007199254740992)"
proof -
  show "dsub (Finite (215027748241771 / 562949953421312)) (Finite 0) =
     Finite (215027748241771 / 562949953421312)"
    by (rule dsub_eval [where e = "- 2"]) (simp_all add: round64_simps)
  show "dmul (Finite (347922205179541 / 562949953421312)) (Finite (215027748241771 / 562949953421312)) =
     Finite (2126311311004319 / 9007199254740992)"
    by (rule dmul_eval [where e = "- 3"]) (simp_all add: round64_simps)
  show "dsub (Finite (215027748241771 / 562949953421312)) (Finite (2126311311004319 / 9007199254740992)) =
     Finite (1314132660864017 / 9007199254740992)"
    by (rule dsub_eval [where e = "- 3"]) (simp_all add: round64_simps)
qed

lemma init_unit:
  "f (Finite (215027748241771 / 562949953421312)) = Inr fc \<Longrightarrow>
   f (Finite (347922205179541 / 562949953421312)) = Inr fd \<Longrightarrow>
   init f (Finite 0) (Finite 1) =
     (Inr \<lparr>s_a = Finite 0, s_b = Finite 1, s_c = Finite (215027748241771 / 562949953421312),
           s_d = Finite (347922205179541 / 562949953421312), s_fc = fc, s_fd = fd, s_it = 0\<rparr>,
      [Finite (215027748241771 / 562949953421312), Finite (347922205179541 / 562949953421312)])"
  unfolding init_eq gr_value ops_unit by simp

lemma unit_interval: "\<not> dge (Finite 0) (Finite 1)"
  by (simp add: dge_def dle_def)

lemma example_run:
  "search_trajectory ident (Finite 0) (Finite 1) (Finite (1 / 2)) 1000 True =
     [\<lparr>s_a = Finite 0, s_b = Finite 1, s_c = Finite (215027748241771 / 562949953421312), s_d = Finite (347922205179541 / 562949953421312), s_fc = 215027748241771 / 562949953421312, s_fd = 347922205179541 / 562949953421312, s_it = 0\<rparr>,
      \<lparr>s_a = Finite 0, s_b = Finite (347922205179541 / 562949953421312), s_c = Finite (2126311311004319 / 9007199254740992), s_d = Finite (215027748241771 / 562949953421312), s_fc = 2126311311004319 / 9007199254740992, s_fd = 215027748241771 / 562949953421312, s_it = 1\<rparr>,
      \<lparr>s_a = Finite 0, s_b = Finite (215027748241771 / 562949953421312), s_c = Finite (1314132660864017 / 9007199254740992), s_d = Finite (2126311311004319 / 9007199254740992), s_fc = 1314132660864017 / 9007199254740992, s_fd = 2126311311004319 / 9007199254740992, s_it = 2\<rparr>]"
  "final_state ident (Finite 0) (Finite 1) (Finite (1 / 2)) 1000 True =
     (Inr \<lparr>s_a = Finite 0, s_b = Finite (215027748241771 / 562949953421312), s_c = Finite (1314132660864017 / 9007199254740992), s_d = Finite (2126311311004319 / 9007199254740992), s_fc = 1314132660864017 / 9007199254740992, s_fd = 2126311311004319 / 9007199254740992, s_it = 2\<rparr>,
      [Finite (215027748241771 / 562949953421312), Finite (347922205179541 / 562949953421312), Finite (2126311311004319 / 9007199254740992), Finite (1314132660864017 / 9007199254740992)])"
proof -
  let ?s0 = "\<lparr>s_a = Finite 0, s_b = Finite 1, s_c = Finite (215027748241771 / 562949953421312), s_d = Finite (347922205179541 / 562949953421312), s_fc = 215027748241771 / 562949953421312, s_fd = 347922205179541 / 562949953421312, s_it = 0\<rparr>"
  let ?s1 = "\<lparr>s_a = Finite 0, s_b = Finite (347922205179541 / 562949953421312), s_c = Finite (2126311311004319 / 9007199254740992), s_d = Finite (215027748241771 / 562949953421312), s_fc = 2126311311004319 / 9007199254740992, s_fd = 215027748241771 / 562949953421312, s_it = 1\<rparr>"
  let ?s2 = "\<lparr>s_a = Finite 0, s_b = Finite (215027748241771 / 562949953421312), s_c = Finite (1314132660864017 / 9007199254740992), s_d = Finite (2126311311004319 / 9007199254740992), s_fc = 1314132660864017 / 9007199254740992, s_fd = 2126311311004319 / 9007199254740992, s_it = 2\<rparr>"
  let ?e0 = "[Finite (215027748241771 / 562949953421312), Finite (347922205179541 / 562949953421312)]"
  let ?p0 = "Finite (2126311311004319 / 9007199254740992)"
  let ?p1 = "Finite (1314132660864017 / 9007199254740992)"
  have i: "init ident (Finite 0) (Finite 1) = (Inr ?s0, ?e0)"
    by (rule init_unit) simp_all
  have c0: "continues (Finite (1 / 2)) 1000 ?s0"
    by (simp add: continues_def ops_unit dgt_def del: dadd.simps dmul.simps)
  have p0: "probe True ?s0 = ?p0"
    unfolding probe_def gr_value by (simp add: takes_b_def ops_first del: dadd.simps dmul.simps)
  have a0: "advance True ?s0 (2126311311004319 / 9007199254740992) = ?s1"
    by (simp add: advance_def p0) (simp add: takes_b_def)
  have c1: "continues (Finite (1 / 2)) 1000 ?s1"
    by (simp add: continues_def ops_first dgt_def del: dadd.simps dmul.simps)
  have p1: "probe True ?s1 = ?p1"
    unfolding probe_def gr_value by (simp add: takes_b_def ops_second del: dadd.simps dmul.simps)
  have a1: "advance True ?s1 (1314132660864017 / 9007199254740992) = ?s2"
    by (simp add: advance_def p1) (simp add: takes_b_def)
  have c2: "\<not> continues (Finite (1 / 2)) 1000 ?s2"
    by (simp add: continues_def ops_second dgt_def del: dadd.simps dmul.simps)
  have "trajectory ident (Finite (1 / 2)) 1000 True ?s0 ?e0 = [?s0, ?s1, ?s2]"
    by (subst trajectory_steps [OF c0, where y = "2126311311004319 / 9007199254740992"])
      (simp_all add: p0 a0 trajectory_steps [OF c1, where y = "1314132660864017 / 9007199254740992"]
        p1 a1 trajectory_stops [OF c2])
  then show "search_trajectory ident (Finite 0) (Finite 1) (Finite (1 / 2)) 1000 True =
      [?s0, ?s1, ?s2]"
    by (simp add: search_trajectory_def i unit_interval)
  have "loop ident (Finite (1 / 2)) 1000 True ?s0 ?e0 = (Inr ?s2, ?e0 @ [?p0, ?p1])"
    by (subst loop_steps [OF c0, where y = "2126311311004319 / 9007199254740992"])
      (simp_all add: p0 a0 loop_steps [OF c1, where y = "1314132660864017 / 9007199254740992"]
        p1 a1 loop_stops [OF c2])
  then show "final_state ident (Finite 0) (Finite 1) (Finite (1 / 2)) 1000 True =
      (Inr ?s2, [Finite (215027748241771 / 562949953421312), Finite (347922205179541 / 562949953421312), Finite (2126311311004319 / 9007199254740992), Finite (1314132660864017 / 9007199254740992)])"
    by (simp add: final_state_def i)
qed

lemma example_search:
  "golden_section_search ident (Finite 0) (Finite 1) (Finite (1 / 2)) 1000 True =
     (Inr (Finite (1314132660864017 / 9007199254740992), 1314132660864017 / 9007199254740992, 2),
      [Finite (215027748241771 / 562949953421312), Finite (347922205179541 / 562949953421312), Finite (2126311311004319 / 9007199254740992), Finite (1314132660864017 / 9007199254740992)])"
  by (simp add: search_eq unit_interval example_run(2) pick_def)

text \<open>The same bracket with a negative cap: the loop is not entered.\<close>

lemma example_negative_cap:
  "golden_section_search ident (Finite 0) (Finite 1) (Finite (1 / 2)) (- 1) True =
     (Inr (Finite (215027748241771 / 562949953421312), 215027748241771 / 562949953421312, 0), [Finite (215027748241771 / 562949953421312), Finite (347922205179541 / 562949953421312)])"
proof -
  have "init ident (Finite 0) (Finite 1) = (Inr \<lparr>s_a = Finite 0, s_b = Finite 1, s_c = Finite (215027748241771 / 562949953421312), s_d = Finite (347922205179541 / 562949953421312), s_fc = 215027748241771 / 562949953421312, s_fd = 347922205179541 / 562949953421312, s_it = 0\<rparr>, [Finite (215027748241771 / 562949953421312), Finite (347922205179541 / 562949953421312)])"
    by (rule init_unit) simp_all
  then show ?thesis
    by (simp add: search_eq unit_interval final_state_def loop_zero_cap pick_def)
qed




text \<open>
  Two adjacent doubles, \<open>a = 1\<close> and \<open>b = 1 + 2^-52\<close>: \<open>b - gr (b - a)\<close> rounds to \<open>a\<close> and
  \<open>a + gr (b - a)\<close> rounds to \<open>b\<close>.
\<close>

lemma ops_ulp:
  "dsub (Finite (4503599627370497 / 4503599627370496)) (Finite 1) = Finite (1 / 4503599627370496)"
  "dmul (Finite (347922205179541 / 562949953421312)) (Finite (1 / 4503599627370496)) = Finite (347922205179541 / 2535301200456458802993406410752)"
  "dsub (Finite (4503599627370497 / 4503599627370496)) (Finite (347922205179541 / 2535301200456458802993406410752)) = Finite 1"
  "dadd (Finite 1) (Finite (347922205179541 / 2535301200456458802993406410752)) = Finite (4503599627370497 / 4503599627370496)"
proof -
  show "dsub (Finite (4503599627370497 / 4503599627370496)) (Finite 1) = Finite (1 / 4503599627370496)"
    by (rule dsub_eval [where e = "- 52"]) (simp_all add: round64_simps)
  show "dmul (Finite (347922205179541 / 562949953421312)) (Finite (1 / 4503599627370496)) = Finite (347922205179541 / 2535301200456458802993406410752)"
    by (rule dmul_eval [where e = "- 53"]) (simp_all add: round64_simps)
  show "dsub (Finite (4503599627370497 / 4503599627370496)) (Finite (347922205179541 / 2535301200456458802993406410752)) = Finite 1"
    by (rule dsub_eval [where e = 0]) (simp_all add: round64_simps)
  show "dadd (Finite 1) (Finite (347922205179541 / 2535301200456458802993406410752)) = Finite (4503599627370497 / 4503599627370496)"
    by (rule dadd_eval [where e = 0]) (simp_all add: round64_simps)
qed

lemma ulp_interval: "\<not> dge (Finite 1) (Finite (4503599627370497 / 4503599627370496))"
  by (simp add: dge_def dle_def)

lemma example_ulp:
  "search_trajectory ident (Finite 1) (Finite (4503599627370497 / 4503599627370496)) (Finite (1 / 2)) 0 True =
     [\<lparr>s_a = Finite 1, s_b = Finite (4503599627370497 / 4503599627370496), s_c = Finite 1, s_d = Finite (4503599627370497 / 4503599627370496),
       s_fc = 1, s_fd = 4503599627370497 / 4503599627370496, s_it = 0\<rparr>]"
  "golden_section_search ident (Finite 1) (Finite (4503599627370497 / 4503599627370496)) (Finite (1 / 2)) 0 True =
     (Inr (Finite 1, 1, 0), [Finite 1, Finite (4503599627370497 / 4503599627370496)])"
proof -
  have i: "init ident (Finite 1) (Finite (4503599627370497 / 4503599627370496)) =
      (Inr \<lparr>s_a = Finite 1, s_b = Finite (4503599627370497 / 4503599627370496), s_c = Finite 1, s_d = Finite (4503599627370497 / 4503599627370496),
       s_fc = 1, s_fd = 4503599627370497 / 4503599627370496, s_it = 0\<rparr>, [Finite 1, Finite (4503599627370497 / 4503599627370496)])"
    unfolding init_eq gr_value ops_ulp by simp
  show "search_trajectory ident (Finite 1) (Finite (4503599627370497 / 4503599627370496)) (Finite (1 / 2)) 0 True =
     [\<lparr>s_a = Finite 1, s_b = Finite (4503599627370497 / 4503599627370496), s_c = Finite 1, s_d = Finite (4503599627370497 / 4503599627370496),
       s_fc = 1, s_fd = 4503599627370497 / 4503599627370496, s_it = 0\<rparr>]"
    by (simp add: search_trajectory_def ulp_interval i trajectory_zero_cap)
  show "golden_section_search ident (Finite 1) (Finite (4503599627370497 / 4503599627370496)) (Finite (1 / 2)) 0 True =
     (Inr (Finite 1, 1, 0), [Finite 1, Finite (4503599627370497 / 4503599627370496)])"
    by (simp add: search_eq ulp_interval final_state_def i loop_zero_cap pick_def)
qed

text \<open>
  Overflow, \<open>a = -2^1023\<close> and \<open>b = 2^1023\<close>: \<open>b - a\<close> is plus infinity, the initial points
  are minus and plus infinity. Minimizing \<open>sign\<close>: the first iteration moves \<open>b\<close> to plus
  infinity and computes \<open>c\<close> as infinity minus infinity, NaN; the second moves \<open>a\<close> to
  that NaN; then \<open>b - a\<close> is NaN, the comparison with the tolerance is false and the loop
  is left. \<open>finite_sin\<close> raises at the first point.
\<close>

lemma ops_overflow:
  "dsub (Finite huge) (Finite (- huge)) = PInf"
proof -
  have "round64 (2 ^ 1023 + 2 ^ 1023) = (if (0::real) < 2 ^ 1023 + 2 ^ 1023 then PInf else NInf)"
    by (rule round64_overflow [where e = 1024 and n = "2 ^ 52"]) (simp_all add: round64_simps)
  then show ?thesis by (simp add: dsub_def huge_def)
qed

lemma overflow_interval: "\<not> dge (Finite (- huge)) (Finite huge)"
  by (simp add: dge_def dle_def huge_def)

lemma init_overflow:
  "f NInf = Inr fc \<Longrightarrow> f PInf = Inr fd \<Longrightarrow>
   init f (Finite (- huge)) (Finite huge) =
     (Inr \<lparr>s_a = Finite (- huge), s_b = Finite huge, s_c = NInf, s_d = PInf,
           s_fc = fc, s_fd = fd, s_it = 0\<rparr>, [NInf, PInf])"
  unfolding init_eq ops_overflow gr_value by (simp add: dsub_def)

lemma example_overflow:
  "search_trajectory sign (Finite (- huge)) (Finite huge) (Finite (1 / 2)) 1000 True =
     [\<lparr>s_a = Finite (- huge), s_b = Finite huge, s_c = NInf, s_d = PInf, s_fc = - 1, s_fd = 1, s_it = 0\<rparr>,
      \<lparr>s_a = Finite (- huge), s_b = PInf, s_c = NaN, s_d = NInf, s_fc = 0, s_fd = - 1, s_it = 1\<rparr>,
      \<lparr>s_a = NaN, s_b = PInf, s_c = NInf, s_d = NaN, s_fc = - 1, s_fd = 0, s_it = 2\<rparr>]"
  "final_state sign (Finite (- huge)) (Finite huge) (Finite (1 / 2)) 1000 True =
     (Inr \<lparr>s_a = NaN, s_b = PInf, s_c = NInf, s_d = NaN, s_fc = - 1, s_fd = 0, s_it = 2\<rparr>,
      [NInf, PInf, NaN, NaN])"
proof -
  let ?s0 = "\<lparr>s_a = Finite (- huge), s_b = Finite huge, s_c = NInf, s_d = PInf, s_fc = - 1, s_fd = 1, s_it = 0\<rparr>"
  let ?s1 = "\<lparr>s_a = Finite (- huge), s_b = PInf, s_c = NaN, s_d = NInf, s_fc = 0, s_fd = - 1, s_it = 1\<rparr>"
  let ?s2 = "\<lparr>s_a = NaN, s_b = PInf, s_c = NInf, s_d = NaN, s_fc = - 1, s_fd = 0, s_it = 2\<rparr>"
  let ?e0 = "[NInf, PInf]"
  have i: "init sign (Finite (- huge)) (Finite huge) = (Inr ?s0, ?e0)"
    by (rule init_overflow) (simp_all add: sign_def dgt_def)
  have c0: "continues (Finite (1 / 2)) 1000 ?s0"
    unfolding continues_def by (simp add: ops_overflow dgt_def)
  have p0: "probe True ?s0 = NaN"
    unfolding probe_def gr_value by (simp add: takes_b_def dsub_def)
  have f0: "sign NaN = Inr 0"
    by (simp add: sign_def dgt_def)
  have a0: "advance True ?s0 0 = ?s1"
    by (simp add: advance_def p0) (simp add: takes_b_def)
  have c1: "continues (Finite (1 / 2)) 1000 ?s1"
    unfolding continues_def by (simp add: dsub_def dgt_def)
  have p1: "probe True ?s1 = NaN"
    unfolding probe_def gr_value by (simp add: takes_b_def dsub_def)
  have a1: "advance True ?s1 0 = ?s2"
    by (simp add: advance_def p1) (simp add: takes_b_def)
  have c2: "\<not> continues (Finite (1 / 2)) 1000 ?s2"
    unfolding continues_def by (simp add: dsub_def dgt_def)
  have "trajectory sign (Finite (1 / 2)) 1000 True ?s0 ?e0 = [?s0, ?s1, ?s2]"
    by (subst trajectory_steps [OF c0, where y = 0])
      (simp_all add: p0 f0 a0 trajectory_steps [OF c1, where y = 0] p1 a1 trajectory_stops [OF c2])
  then show "search_trajectory sign (Finite (- huge)) (Finite huge) (Finite (1 / 2)) 1000 True =
      [?s0, ?s1, ?s2]"
    by (simp add: search_trajectory_def i overflow_interval)
  have "loop sign (Finite (1 / 2)) 1000 True ?s0 ?e0 = (Inr ?s2, ?e0 @ [NaN, NaN])"
    by (subst loop_steps [OF c0, where y = 0])
      (simp_all add: p0 f0 a0 loop_steps [OF c1, where y = 0] p1 a1 loop_stops [OF c2])
  then show "final_state sign (Finite (- huge)) (Finite huge) (Finite (1 / 2)) 1000 True =
      (Inr ?s2, [NInf, PInf, NaN, NaN])"
    by (simp add: final_state_def i)
qed





section \<open>The precondition\<close>

text \<open>
  C2. If \<open>a \<ge> b\<close> the call raises the interval error (the source's \<^verbatim>\<open>ValueError\<close>) and
  the log of calls to \<^verbatim>\<open>f\<close> is empty: the error is raised before \<^verbatim>\<open>f\<close> is called.
\<close>

theorem invalid_interval_raises:
  "dge a b \<Longrightarrow>
     golden_section_search f a b tol max_iter minimize =
       (Inl (ValueError ''Require a < b for the search interval''), [])"
  by (simp add: golden_section_search_def)

theorem invalid_interval_raises_witness:
  "dge (Finite 5) (Finite (- 5)) \<and>
   golden_section_search ident (Finite 5) (Finite (- 5)) (Finite (1 / 2)) 1000 True =
     (Inl (ValueError ''Require a < b for the search interval''), []) \<and>
   length (snd (golden_section_search ident (Finite 5) (Finite (- 5)) (Finite (1 / 2)) 1000 True)) = 0"
proof -
  have h: "dge (Finite 5) (Finite (- 5))" by (simp add: dge_def dle_def)
  from invalid_interval_raises [OF h, of ident "Finite (1 / 2)" 1000 True] h
  show ?thesis by simp
qed

section \<open>Iteration count and stopping\<close>

text \<open>
  C1, amended. Whenever the call returns \<open>(x_opt, f_opt, n)\<close>: \<open>0 \<le> n\<close>; \<open>n \<le> max_iter\<close>
  provided \<open>0 \<le> max_iter\<close>, and \<open>n = 0\<close> when \<open>max_iter < 0\<close>; \<open>n\<close> is the counter of the state
  in which the loop was left, and if \<open>n < max_iter\<close> the loop's comparison
  \<^verbatim>\<open>(b - a) > tol\<close> is false in that state, that is, \<open>b - a \<le> tol\<close> unless \<open>b - a\<close> (or
  \<open>tol\<close>) is NaN. The call does return when \<open>a \<ge> b\<close> is false and \<^verbatim>\<open>f\<close> raises at no double.
\<close>

theorem iterations_within_cap:
  "(\<forall>x_opt f_opt n evals.
      golden_section_search f a b tol max_iter minimize = (Inr (x_opt, f_opt, n), evals) \<longrightarrow>
        0 \<le> n \<and> (0 \<le> max_iter \<longrightarrow> n \<le> max_iter) \<and> (max_iter < 0 \<longrightarrow> n = 0) \<and>
        (\<exists>s. final_state f a b tol max_iter minimize = (Inr s, evals) \<and> s_it s = n \<and>
             (n < max_iter \<longrightarrow>
                \<not> dgt (dsub (s_b s) (s_a s)) tol \<and>
                (dle (dsub (s_b s) (s_a s)) tol \<or> dsub (s_b s) (s_a s) = NaN \<or> tol = NaN)))) \<and>
   (\<not> dge a b \<and> (\<forall>x. \<exists>y. f x = Inr y) \<longrightarrow>
      (\<exists>r evals. golden_section_search f a b tol max_iter minimize = (Inr r, evals)))"
proof (intro conjI)
  show "\<forall>x_opt f_opt n evals.
      golden_section_search f a b tol max_iter minimize = (Inr (x_opt, f_opt, n), evals) \<longrightarrow>
        0 \<le> n \<and> (0 \<le> max_iter \<longrightarrow> n \<le> max_iter) \<and> (max_iter < 0 \<longrightarrow> n = 0) \<and>
        (\<exists>s. final_state f a b tol max_iter minimize = (Inr s, evals) \<and> s_it s = n \<and>
             (n < max_iter \<longrightarrow>
                \<not> dgt (dsub (s_b s) (s_a s)) tol \<and>
                (dle (dsub (s_b s) (s_a s)) tol \<or> dsub (s_b s) (s_a s) = NaN \<or> tol = NaN)))"
  proof (intro allI impI)
    fix x_opt f_opt n evals
    assume g: "golden_section_search f a b tol max_iter minimize = (Inr (x_opt, f_opt, n), evals)"
    then obtain s where fs: "final_state f a b tol max_iter minimize = (Inr s, evals)"
      and r: "(x_opt, f_opt, n) = pick minimize s"
      by (rule search_returns)
    from r have n: "n = s_it s" using pick_it [of minimize s] by (metis snd_conv)
    note fr = final_state_returns [OF fs]
    have stop: "\<not> dgt (dsub (s_b s) (s_a s)) tol \<and>
        (dle (dsub (s_b s) (s_a s)) tol \<or> dsub (s_b s) (s_a s) = NaN \<or> tol = NaN)"
      if "n < max_iter"
      using fr(4) that n not_dgt [of "dsub (s_b s) (s_a s)" tol] by simp
    have "0 \<le> n" using fr(1) n by simp
    moreover have "0 \<le> max_iter \<longrightarrow> n \<le> max_iter" using fr(2) n by simp
    moreover have "max_iter < 0 \<longrightarrow> n = 0" using fr(3) n by simp
    moreover have "\<exists>s. final_state f a b tol max_iter minimize = (Inr s, evals) \<and> s_it s = n \<and>
             (n < max_iter \<longrightarrow>
                \<not> dgt (dsub (s_b s) (s_a s)) tol \<and>
                (dle (dsub (s_b s) (s_a s)) tol \<or> dsub (s_b s) (s_a s) = NaN \<or> tol = NaN))"
      using fs n stop by blast
    ultimately show "0 \<le> n \<and> (0 \<le> max_iter \<longrightarrow> n \<le> max_iter) \<and> (max_iter < 0 \<longrightarrow> n = 0) \<and>
        (\<exists>s. final_state f a b tol max_iter minimize = (Inr s, evals) \<and> s_it s = n \<and>
             (n < max_iter \<longrightarrow>
                \<not> dgt (dsub (s_b s) (s_a s)) tol \<and>
                (dle (dsub (s_b s) (s_a s)) tol \<or> dsub (s_b s) (s_a s) = NaN \<or> tol = NaN)))"
      by blast
  qed
  show "\<not> dge a b \<and> (\<forall>x. \<exists>y. f x = Inr y) \<longrightarrow>
      (\<exists>r evals. golden_section_search f a b tol max_iter minimize = (Inr r, evals))"
    using search_total [of a b f tol max_iter minimize] by blast
qed

theorem iterations_within_cap_witness:
  "\<not> dge (Finite 0) (Finite 1) \<and> (2::int) < 1000 \<and>
   golden_section_search ident (Finite 0) (Finite 1) (Finite (1 / 2)) 1000 True =
     (Inr (Finite (1314132660864017 / 9007199254740992), 1314132660864017 / 9007199254740992, 2),
      [Finite (215027748241771 / 562949953421312), Finite (347922205179541 / 562949953421312), Finite (2126311311004319 / 9007199254740992), Finite (1314132660864017 / 9007199254740992)]) \<and>
   (\<exists>s. final_state ident (Finite 0) (Finite 1) (Finite (1 / 2)) 1000 True =
          (Inr s, [Finite (215027748241771 / 562949953421312), Finite (347922205179541 / 562949953421312), Finite (2126311311004319 / 9007199254740992), Finite (1314132660864017 / 9007199254740992)]) \<and>
        s_it s = 2 \<and> \<not> dgt (dsub (s_b s) (s_a s)) (Finite (1 / 2))) \<and>
   (\<exists>r evals. golden_section_search sign (Finite (- huge)) (Finite huge) (Finite (1 / 2)) 1000 True = (Inr r, evals))"
proof -
  have total: "\<forall>x. \<exists>y. sign x = Inr y" by (simp add: sign_def)
  note run = iterations_within_cap [of ident "Finite 0" "Finite 1" "Finite (1 / 2)" 1000 True,
      THEN conjunct1, rule_format, OF example_search]
  from run obtain s where "final_state ident (Finite 0) (Finite 1) (Finite (1 / 2)) 1000 True =
          (Inr s, [Finite (215027748241771 / 562949953421312), Finite (347922205179541 / 562949953421312), Finite (2126311311004319 / 9007199254740992), Finite (1314132660864017 / 9007199254740992)])"
    and "s_it s = 2" and "\<not> dgt (dsub (s_b s) (s_a s)) (Finite (1 / 2))"
    by auto
  then have "\<exists>s. final_state ident (Finite 0) (Finite 1) (Finite (1 / 2)) 1000 True =
          (Inr s, [Finite (215027748241771 / 562949953421312), Finite (347922205179541 / 562949953421312), Finite (2126311311004319 / 9007199254740992), Finite (1314132660864017 / 9007199254740992)]) \<and>
        s_it s = 2 \<and> \<not> dgt (dsub (s_b s) (s_a s)) (Finite (1 / 2))"
    by blast
  moreover from iterations_within_cap [of sign "Finite (- huge)" "Finite huge" "Finite (1 / 2)" 1000 True]
    overflow_interval total
  have "\<exists>r evals. golden_section_search sign (Finite (- huge)) (Finite huge) (Finite (1 / 2)) 1000 True = (Inr r, evals)"
    by blast
  ultimately show ?thesis
    using example_search unit_interval by simp
qed

text \<open>
  C1 as stated fails twice. For \<^verbatim>\<open>max_iter = -1\<close> the call returns \<open>0\<close> iterations, and
  \<open>0 \<le> -1\<close> is false. For \<open>a = -2^1023\<close>, \<open>b = 2^1023\<close> the difference \<open>b - a\<close> overflows;
  with the objective \<open>sign\<close> the call returns after \<open>2 < 1000\<close> iterations with \<open>a\<close> NaN, so
  the final length is NaN and \<open>b - a \<le> tol\<close> is false.
\<close>

theorem iterations_negative_cap_counterexample:
  "golden_section_search ident (Finite 0) (Finite 1) (Finite (1 / 2)) (- 1) True =
     (Inr (Finite (215027748241771 / 562949953421312), 215027748241771 / 562949953421312, 0), [Finite (215027748241771 / 562949953421312), Finite (347922205179541 / 562949953421312)]) \<and>
   \<not> ((0::int) \<le> 0 \<and> (0::int) \<le> - 1) \<and>
   golden_section_search sign (Finite (- huge)) (Finite huge) (Finite (1 / 2)) 1000 True = (Inr (NInf, - 1, 2), [NInf, PInf, NaN, NaN]) \<and>
   final_state sign (Finite (- huge)) (Finite huge) (Finite (1 / 2)) 1000 True =
     (Inr \<lparr>s_a = NaN, s_b = PInf, s_c = NInf, s_d = NaN, s_fc = - 1, s_fd = 0, s_it = 2\<rparr>, [NInf, PInf, NaN, NaN]) \<and>
   (2::int) < 1000 \<and> dgt (Finite (1 / 2)) (Finite 0) \<and>
   dsub PInf NaN = NaN \<and> \<not> dle (dsub PInf NaN) (Finite (1 / 2))"
  by (simp add: example_negative_cap search_eq overflow_interval example_overflow(2) pick_def
      dsub_def dle_def dgt_def)

section \<open>Evaluations of the objective\<close>

text \<open>
  C3. Whenever the call returns \<open>(x_opt, f_opt, n)\<close>, the number of calls to \<^verbatim>\<open>f\<close> is
  \<open>n + 2\<close>: the initialisation makes two calls and starts the counter at \<open>0\<close>, and every
  execution of the loop body makes exactly one call (whatever its outcome) and, when that
  call returns, adds one to the counter. The call does return when \<open>a \<ge> b\<close> is false and
  \<^verbatim>\<open>f\<close> raises at no double.
\<close>

theorem evaluations_count:
  "(\<forall>x_opt f_opt n evals.
      golden_section_search f a b tol max_iter minimize = (Inr (x_opt, f_opt, n), evals) \<longrightarrow>
        int (length evals) = n + 2) \<and>
   (\<forall>s0 evals0. init f a b = (Inr s0, evals0) \<longrightarrow> length evals0 = 2 \<and> s_it s0 = 0) \<and>
   (\<forall>s evals. length (snd (body f minimize s evals)) = length evals + 1) \<and>
   (\<forall>s evals s' evals'. body f minimize s evals = (Inr s', evals') \<longrightarrow> s_it s' = s_it s + 1) \<and>
   (\<not> dge a b \<and> (\<forall>x. \<exists>y. f x = Inr y) \<longrightarrow>
      (\<exists>r evals. golden_section_search f a b tol max_iter minimize = (Inr r, evals)))"
proof (intro conjI)
  show "\<forall>x_opt f_opt n evals.
      golden_section_search f a b tol max_iter minimize = (Inr (x_opt, f_opt, n), evals) \<longrightarrow>
        int (length evals) = n + 2"
  proof (intro allI impI)
    fix x_opt f_opt n evals
    assume g: "golden_section_search f a b tol max_iter minimize = (Inr (x_opt, f_opt, n), evals)"
    then obtain s where fs: "final_state f a b tol max_iter minimize = (Inr s, evals)"
      and r: "(x_opt, f_opt, n) = pick minimize s"
      by (rule search_returns)
    from r have n: "n = s_it s" using pick_it [of minimize s] by (metis snd_conv)
    with final_state_returns(5) [OF fs] show "int (length evals) = n + 2" by simp
  qed
  show "\<forall>s0 evals0. init f a b = (Inr s0, evals0) \<longrightarrow> length evals0 = 2 \<and> s_it s0 = 0"
  proof (intro allI impI)
    fix s0 evals0
    assume i: "init f a b = (Inr s0, evals0)"
    from init_returns(8) [OF i] init_returns(3) [OF i] show "length evals0 = 2 \<and> s_it s0 = 0" by simp
  qed
  show "\<forall>s evals. length (snd (body f minimize s evals)) = length evals + 1"
    by (simp add: body_evals)
  show "\<forall>s evals s' evals'. body f minimize s evals = (Inr s', evals') \<longrightarrow> s_it s' = s_it s + 1"
    using body_it [of f minimize] by blast
  show "\<not> dge a b \<and> (\<forall>x. \<exists>y. f x = Inr y) \<longrightarrow>
      (\<exists>r evals. golden_section_search f a b tol max_iter minimize = (Inr r, evals))"
    using search_total [of a b f tol max_iter minimize] by blast
qed

theorem evaluations_count_witness:
  "golden_section_search ident (Finite 0) (Finite 1) (Finite (1 / 2)) 1000 True =
     (Inr (Finite (1314132660864017 / 9007199254740992), 1314132660864017 / 9007199254740992, 2),
      [Finite (215027748241771 / 562949953421312), Finite (347922205179541 / 562949953421312), Finite (2126311311004319 / 9007199254740992), Finite (1314132660864017 / 9007199254740992)]) \<and>
   int (length [Finite (215027748241771 / 562949953421312), Finite (347922205179541 / 562949953421312), Finite (2126311311004319 / 9007199254740992), Finite (1314132660864017 / 9007199254740992)]) = 2 + 2"
  using evaluations_count [of ident "Finite 0" "Finite 1" "Finite (1 / 2)" 1000 True] example_search
  by simp




section \<open>The boundary \<^verbatim>\<open>max_iter = 0\<close>\<close>

text \<open>
  C8. With \<^verbatim>\<open>max_iter = 0\<close> and \<open>a \<ge> b\<close> false, if the two initial calls return \<open>fc\<close> and
  \<open>fd\<close>, the result has \<open>0\<close> iterations, \<^verbatim>\<open>f\<close> has been called exactly at the two initial
  interior points, and the returned pair is chosen between them by
  \<^verbatim>\<open>(fc < fd) == minimize\<close>; its value is the smaller of \<open>fc\<close> and \<open>fd\<close> when minimizing and
  the larger when maximizing.
\<close>

theorem zero_cap_returns_initial:
  assumes "\<not> dge a b"
    and "f (dsub b (dmul gr (dsub b a))) = Inr fc" and "f (dadd a (dmul gr (dsub b a))) = Inr fd"
  shows "golden_section_search f a b tol 0 minimize =
           (Inr (if (fc < fd) = minimize then (dsub b (dmul gr (dsub b a)), fc, 0)
                 else (dadd a (dmul gr (dsub b a)), fd, 0)),
            [dsub b (dmul gr (dsub b a)), dadd a (dmul gr (dsub b a))]) \<and>
         (if (fc < fd) = minimize then fc else fd) = (if minimize then min fc fd else max fc fd)"
proof -
  let ?s0 = "\<lparr>s_a = a, s_b = b, s_c = dsub b (dmul gr (dsub b a)), s_d = dadd a (dmul gr (dsub b a)),
               s_fc = fc, s_fd = fd, s_it = 0\<rparr>"
  have i: "init f a b = (Inr ?s0, [dsub b (dmul gr (dsub b a)), dadd a (dmul gr (dsub b a))])"
    using assms(2,3) by (simp add: init_eq)
  have "loop f tol 0 minimize ?s0 [dsub b (dmul gr (dsub b a)), dadd a (dmul gr (dsub b a))] =
          (Inr ?s0, [dsub b (dmul gr (dsub b a)), dadd a (dmul gr (dsub b a))])"
    by (subst loop.simps) simp
  with i assms(1) show ?thesis
    by (auto simp: search_eq final_state_def pick_def)
qed

theorem zero_cap_returns_initial_witness:
  "\<not> dge (Finite 0) (Finite 1) \<and>
   quadratic (dsub (Finite 1) (dmul gr (dsub (Finite 1) (Finite 0)))) =
     Inr ((215027748241771 / 562949953421312 - 2)\<^sup>2 + 1) \<and>
   quadratic (dadd (Finite 0) (dmul gr (dsub (Finite 1) (Finite 0)))) =
     Inr ((347922205179541 / 562949953421312 - 2)\<^sup>2 + 1) \<and>
   golden_section_search quadratic (Finite 0) (Finite 1) (Finite (1 / 2)) 0 True =
     (Inr (Finite (347922205179541 / 562949953421312), (347922205179541 / 562949953421312 - 2)\<^sup>2 + 1, 0), [Finite (215027748241771 / 562949953421312), Finite (347922205179541 / 562949953421312)])"
proof -
  have c: "dsub (Finite 1) (dmul gr (dsub (Finite 1) (Finite 0))) = Finite (215027748241771 / 562949953421312)"
    and d: "dadd (Finite 0) (dmul gr (dsub (Finite 1) (Finite 0))) = Finite (347922205179541 / 562949953421312)"
    unfolding gr_value ops_unit by simp_all
  have fc: "quadratic (dsub (Finite 1) (dmul gr (dsub (Finite 1) (Finite 0)))) =
     Inr ((215027748241771 / 562949953421312 - 2)\<^sup>2 + 1)"
    and fd: "quadratic (dadd (Finite 0) (dmul gr (dsub (Finite 1) (Finite 0)))) =
     Inr ((347922205179541 / 562949953421312 - 2)\<^sup>2 + 1)"
    unfolding c d by simp_all
  have less: "\<not> (215027748241771 / 562949953421312 - 2)\<^sup>2 + 1 < ((347922205179541 / 562949953421312 - 2)\<^sup>2 + 1 :: real)"
    by (simp add: power2_eq_square)
  from zero_cap_returns_initial [OF unit_interval fc fd, of "Finite (1 / 2)" True] less
  have "golden_section_search quadratic (Finite 0) (Finite 1) (Finite (1 / 2)) 0 True =
     (Inr (Finite (347922205179541 / 562949953421312), (347922205179541 / 562949953421312 - 2)\<^sup>2 + 1, 0), [Finite (215027748241771 / 562949953421312), Finite (347922205179541 / 562949953421312)])"
    unfolding c d by simp
  with fc fd unit_interval show ?thesis by simp
qed

section \<open>Failure semantics\<close>




section \<open>The bracket\<close>

text \<open>
  C7, amended. In every state in which the loop condition is tested during a call, the
  cached values are the values \<^verbatim>\<open>f\<close> returned at \<open>c\<close> and \<open>d\<close>, and at least one of
  \<open>c = b - gr (b - a)\<close> and \<open>d = a + gr (b - a)\<close> holds in double arithmetic for the bracket
  of that state. Both hold in the initial state, whose bracket is the caller's. An
  iteration that moves \<open>b\<close> makes the first hold for the new bracket and carries the old
  \<open>c\<close> over as the new \<open>d\<close>; one that moves \<open>a\<close> makes the second hold and carries the old
  \<open>d\<close> over as the new \<open>c\<close>. When the call returns, the last of these states is the one
  in which the loop is left, and there is one more of them than iterations. Nothing is
  claimed about the order of \<open>a\<close>, \<open>c\<close>, \<open>d\<close>, \<open>b\<close>.
\<close>

theorem bracket_invariant:
  "(\<forall>s\<in>set (search_trajectory f a b tol max_iter minimize).
      f (s_c s) = Inr (s_fc s) \<and> f (s_d s) = Inr (s_fd s) \<and>
      (s_c s = dsub (s_b s) (dmul gr (dsub (s_b s) (s_a s))) \<or>
       s_d s = dadd (s_a s) (dmul gr (dsub (s_b s) (s_a s))))) \<and>
   (\<forall>s evals. \<not> dge a b \<and> final_state f a b tol max_iter minimize = (Inr s, evals) \<longrightarrow>
      search_trajectory f a b tol max_iter minimize \<noteq> [] \<and>
      s_a (hd (search_trajectory f a b tol max_iter minimize)) = a \<and>
      s_b (hd (search_trajectory f a b tol max_iter minimize)) = b \<and>
      s_c (hd (search_trajectory f a b tol max_iter minimize)) = dsub b (dmul gr (dsub b a)) \<and>
      s_d (hd (search_trajectory f a b tol max_iter minimize)) = dadd a (dmul gr (dsub b a)) \<and>
      last (search_trajectory f a b tol max_iter minimize) = s \<and>
      int (length (search_trajectory f a b tol max_iter minimize)) = s_it s + 1) \<and>
   (\<forall>i s s'.
      Suc i < length (search_trajectory f a b tol max_iter minimize) \<and>
      s = search_trajectory f a b tol max_iter minimize ! i \<and>
      s' = search_trajectory f a b tol max_iter minimize ! Suc i \<longrightarrow>
        (s_b s' = s_d s \<and> s_d s' = s_c s \<and> s_c s' = dsub (s_b s') (dmul gr (dsub (s_b s') (s_a s'))) \<or>
         s_a s' = s_c s \<and> s_c s' = s_d s \<and> s_d s' = dadd (s_a s') (dmul gr (dsub (s_b s') (s_a s')))))"
  (is "?inv \<and> ?ends \<and> ?step")
proof (intro conjI)
  let ?tr = "search_trajectory f a b tol max_iter minimize"
  show ?inv
  proof (cases rule: search_trajectory_cases [of f a b tol max_iter minimize])
    case empty
    then show ?thesis by simp
  next
    case (entered s0 evals0)
    show ?thesis
    proof
      fix s
      assume "s \<in> set ?tr"
      with entered(3) have "s \<in> set (trajectory f tol max_iter minimize s0 evals0)" by simp
      from trajectory_inv [OF init_inv(1) [OF entered(2)] disjI1 [OF init_inv(2) [OF entered(2)]] this]
      show "f (s_c s) = Inr (s_fc s) \<and> f (s_d s) = Inr (s_fd s) \<and>
        (s_c s = dsub (s_b s) (dmul gr (dsub (s_b s) (s_a s))) \<or>
         s_d s = dadd (s_a s) (dmul gr (dsub (s_b s) (s_a s))))"
        by (simp add: cached_def c_fresh_def d_fresh_def)
    qed
  qed
  show ?ends
  proof (intro allI impI, elim conjE)
    fix s evals
    assume ab: "\<not> dge a b" and fs: "final_state f a b tol max_iter minimize = (Inr s, evals)"
    from fs obtain s0 evals0 where i: "init f a b = (Inr s0, evals0)"
      by (cases rule: final_state_cases [of f a b tol max_iter minimize]) auto
    note tr = search_trajectory_eq [OF ab i, of tol max_iter minimize]
    have "hd ?tr = s0" using tr trajectory_hd [of f tol max_iter minimize s0 evals0] by simp
    with search_trajectory_final(1-5) [OF ab fs] init_returns(4,5) [OF i]
    show "?tr \<noteq> [] \<and> s_a (hd ?tr) = a \<and> s_b (hd ?tr) = b \<and>
      s_c (hd ?tr) = dsub b (dmul gr (dsub b a)) \<and>
      s_d (hd ?tr) = dadd a (dmul gr (dsub b a)) \<and>
      last ?tr = s \<and> int (length ?tr) = s_it s + 1"
      by simp
  qed
  show ?step
  proof (intro allI impI, elim conjE)
    fix i s s'
    assume i: "Suc i < length ?tr" and s: "s = ?tr ! i" and s': "s' = ?tr ! Suc i"
    from search_trajectory_step(2) [OF i, folded s] s'
    obtain y where y: "s' = advance minimize s y" by auto
    show "s_b s' = s_d s \<and> s_d s' = s_c s \<and> s_c s' = dsub (s_b s') (dmul gr (dsub (s_b s') (s_a s'))) \<or>
         s_a s' = s_c s \<and> s_c s' = s_d s \<and> s_d s' = dadd (s_a s') (dmul gr (dsub (s_b s') (s_a s')))"
      unfolding y by (simp add: advance_def probe_def)
  qed
qed

theorem bracket_invariant_witness:
  "search_trajectory ident (Finite 0) (Finite 1) (Finite (1 / 2)) 1000 True =
     [\<lparr>s_a = Finite 0, s_b = Finite 1, s_c = Finite (215027748241771 / 562949953421312), s_d = Finite (347922205179541 / 562949953421312), s_fc = 215027748241771 / 562949953421312, s_fd = 347922205179541 / 562949953421312, s_it = 0\<rparr>,
      \<lparr>s_a = Finite 0, s_b = Finite (347922205179541 / 562949953421312), s_c = Finite (2126311311004319 / 9007199254740992), s_d = Finite (215027748241771 / 562949953421312), s_fc = 2126311311004319 / 9007199254740992, s_fd = 215027748241771 / 562949953421312, s_it = 1\<rparr>,
      \<lparr>s_a = Finite 0, s_b = Finite (215027748241771 / 562949953421312), s_c = Finite (1314132660864017 / 9007199254740992), s_d = Finite (2126311311004319 / 9007199254740992), s_fc = 1314132660864017 / 9007199254740992, s_fd = 2126311311004319 / 9007199254740992, s_it = 2\<rparr>] \<and>
   ident (Finite (2126311311004319 / 9007199254740992)) = Inr (2126311311004319 / 9007199254740992) \<and>
   ident (Finite (215027748241771 / 562949953421312)) = Inr (215027748241771 / 562949953421312) \<and>
   Finite (2126311311004319 / 9007199254740992) =
     dsub (Finite (347922205179541 / 562949953421312)) (dmul gr (dsub (Finite (347922205179541 / 562949953421312)) (Finite 0)))"
proof -
  let ?s1 = "\<lparr>s_a = Finite 0, s_b = Finite (347922205179541 / 562949953421312), s_c = Finite (2126311311004319 / 9007199254740992), s_d = Finite (215027748241771 / 562949953421312), s_fc = 2126311311004319 / 9007199254740992, s_fd = 215027748241771 / 562949953421312, s_it = 1\<rparr>"
  have "?s1 \<in> set (search_trajectory ident (Finite 0) (Finite 1) (Finite (1 / 2)) 1000 True)"
    by (simp add: example_run(1))
  with bracket_invariant [of ident "Finite 0" "Finite 1" "Finite (1 / 2)" 1000 True]
  have "ident (s_c ?s1) = Inr (s_fc ?s1) \<and> ident (s_d ?s1) = Inr (s_fd ?s1) \<and>
      (s_c ?s1 = dsub (s_b ?s1) (dmul gr (dsub (s_b ?s1) (s_a ?s1))) \<or>
       s_d ?s1 = dadd (s_a ?s1) (dmul gr (dsub (s_b ?s1) (s_a ?s1))))"
    by blast
  moreover have "Finite (2126311311004319 / 9007199254740992) =
     dsub (Finite (347922205179541 / 562949953421312)) (dmul gr (dsub (Finite (347922205179541 / 562949953421312)) (Finite 0)))"
    unfolding gr_value ops_first ..
  ultimately show ?thesis
    using example_run(1) by simp
qed

text \<open>
  C7 as stated fails in double arithmetic. In the second state of the run of \<open>ident\<close> on
  \<open>[0, 1]\<close> the carried-over \<open>d\<close> is \<open>0.3819660112501051\<close>, while \<open>a + gr (b - a)\<close> is
  \<open>0.3819660112501052\<close>. On the bracket \<open>[1, 1 + 2^-52]\<close> the initial state has \<open>c = a\<close> and
  \<open>d = b\<close>, so neither \<open>a < c\<close> nor \<open>d < b\<close>. On \<open>[-2^1023, 2^1023]\<close> with the objective
  \<open>sign\<close> the third state has \<open>a\<close> NaN, so \<open>a < b\<close> is false.
\<close>

theorem bracket_invariant_counterexample:
  "s_d (search_trajectory ident (Finite 0) (Finite 1) (Finite (1 / 2)) 1000 True ! 1) = Finite (215027748241771 / 562949953421312) \<and>
   dadd (s_a (search_trajectory ident (Finite 0) (Finite 1) (Finite (1 / 2)) 1000 True ! 1))
     (dmul gr (dsub (s_b (search_trajectory ident (Finite 0) (Finite 1) (Finite (1 / 2)) 1000 True ! 1))
                    (s_a (search_trajectory ident (Finite 0) (Finite 1) (Finite (1 / 2)) 1000 True ! 1)))) =
     Finite (3440443971868337 / 9007199254740992) \<and>
   Finite (215027748241771 / 562949953421312) \<noteq> Finite (3440443971868337 / 9007199254740992) \<and>
   search_trajectory ident (Finite 1) (Finite (4503599627370497 / 4503599627370496)) (Finite (1 / 2)) 0 True =
     [\<lparr>s_a = Finite 1, s_b = Finite (4503599627370497 / 4503599627370496), s_c = Finite 1, s_d = Finite (4503599627370497 / 4503599627370496),
       s_fc = 1, s_fd = 4503599627370497 / 4503599627370496, s_it = 0\<rparr>] \<and>
   \<not> dlt (Finite 1) (Finite 1) \<and> \<not> dlt (Finite (4503599627370497 / 4503599627370496)) (Finite (4503599627370497 / 4503599627370496)) \<and>
   s_a (search_trajectory sign (Finite (- huge)) (Finite huge) (Finite (1 / 2)) 1000 True ! 2) = NaN \<and>
   s_b (search_trajectory sign (Finite (- huge)) (Finite huge) (Finite (1 / 2)) 1000 True ! 2) = PInf \<and>
   \<not> dlt NaN PInf"
proof -
  have 1: "dadd (Finite 0) (dmul gr (dsub (Finite (347922205179541 / 562949953421312)) (Finite 0))) = Finite (3440443971868337 / 9007199254740992)"
  proof -
    have "dadd (Finite 0) (Finite (3440443971868337 / 9007199254740992)) = Finite (3440443971868337 / 9007199254740992)"
      by (rule dadd_eval [where e = "- 2"]) (simp_all add: round64_simps)
    then show ?thesis unfolding gr_value ops_first .
  qed
  show ?thesis
    unfolding example_run(1) example_overflow(1) example_ulp(1)
    using 1 by simp
qed

text \<open>
  C4, amended. Between two consecutive tests of the loop condition, in either mode, one
  endpoint of the bracket is kept and the other is replaced by the interior point next
  to it: either \<open>b\<close> becomes the old \<open>d\<close> (and \<open>a\<close> is kept), or \<open>a\<close> becomes the old \<open>c\<close> (and
  \<open>b\<close> is kept); the counter grows by one, and the iteration was entered because
  \<^verbatim>\<open>(b - a) > tol\<close> held. When the call returns, the number of such steps is the returned
  number of iterations. Nothing is claimed about the ratio of the lengths or about the
  bracket not widening.
\<close>

theorem iteration_replaces_endpoint:
  "(\<forall>i s s'.
      Suc i < length (search_trajectory f a b tol max_iter minimize) \<and>
      s = search_trajectory f a b tol max_iter minimize ! i \<and>
      s' = search_trajectory f a b tol max_iter minimize ! Suc i \<longrightarrow>
        ((s_a s' = s_a s \<and> s_b s' = s_d s) \<or> (s_a s' = s_c s \<and> s_b s' = s_b s)) \<and>
        ((if minimize then s_fc s < s_fd s else s_fc s > s_fd s) \<longrightarrow>
           s_a s' = s_a s \<and> s_b s' = s_d s) \<and>
        (\<not> (if minimize then s_fc s < s_fd s else s_fc s > s_fd s) \<longrightarrow>
           s_a s' = s_c s \<and> s_b s' = s_b s) \<and>
        s_it s' = s_it s + 1 \<and>
        dgt (dsub (s_b s) (s_a s)) tol \<and> s_it s < max_iter) \<and>
   (\<forall>s evals. \<not> dge a b \<and> final_state f a b tol max_iter minimize = (Inr s, evals) \<longrightarrow>
      last (search_trajectory f a b tol max_iter minimize) = s \<and>
      int (length (search_trajectory f a b tol max_iter minimize)) = s_it s + 1)"
  (is "?steps \<and> ?final")
proof (intro conjI)
  let ?tr = "search_trajectory f a b tol max_iter minimize"
  show ?steps
  proof (intro allI impI, elim conjE)
    fix i s s'
    assume i: "Suc i < length ?tr" and s: "s = ?tr ! i" and s': "s' = ?tr ! Suc i"
    note st = search_trajectory_step [OF i, folded s]
    from st(2) s' obtain y where y: "s' = advance minimize s y" by auto
    show "((s_a s' = s_a s \<and> s_b s' = s_d s) \<or> (s_a s' = s_c s \<and> s_b s' = s_b s)) \<and>
        ((if minimize then s_fc s < s_fd s else s_fc s > s_fd s) \<longrightarrow>
           s_a s' = s_a s \<and> s_b s' = s_d s) \<and>
        (\<not> (if minimize then s_fc s < s_fd s else s_fc s > s_fd s) \<longrightarrow>
           s_a s' = s_c s \<and> s_b s' = s_b s) \<and>
        s_it s' = s_it s + 1 \<and>
        dgt (dsub (s_b s) (s_a s)) tol \<and> s_it s < max_iter"
      using st(1) unfolding y by (auto simp: advance_def takes_b_def continues_def)
  qed
  show ?final
    using search_trajectory_final(4,5) [of a b f tol max_iter minimize] by blast
qed

theorem iteration_replaces_endpoint_witness:
  "search_trajectory ident (Finite 0) (Finite 1) (Finite (1 / 2)) 1000 True =
     [\<lparr>s_a = Finite 0, s_b = Finite 1, s_c = Finite (215027748241771 / 562949953421312), s_d = Finite (347922205179541 / 562949953421312), s_fc = 215027748241771 / 562949953421312, s_fd = 347922205179541 / 562949953421312, s_it = 0\<rparr>,
      \<lparr>s_a = Finite 0, s_b = Finite (347922205179541 / 562949953421312), s_c = Finite (2126311311004319 / 9007199254740992), s_d = Finite (215027748241771 / 562949953421312), s_fc = 2126311311004319 / 9007199254740992, s_fd = 215027748241771 / 562949953421312, s_it = 1\<rparr>,
      \<lparr>s_a = Finite 0, s_b = Finite (215027748241771 / 562949953421312), s_c = Finite (1314132660864017 / 9007199254740992), s_d = Finite (2126311311004319 / 9007199254740992), s_fc = 1314132660864017 / 9007199254740992, s_fd = 2126311311004319 / 9007199254740992, s_it = 2\<rparr>] \<and>
   s_a (search_trajectory ident (Finite 0) (Finite 1) (Finite (1 / 2)) 1000 True ! 1) = s_a (search_trajectory ident (Finite 0) (Finite 1) (Finite (1 / 2)) 1000 True ! 0) \<and>
   s_b (search_trajectory ident (Finite 0) (Finite 1) (Finite (1 / 2)) 1000 True ! 1) = s_d (search_trajectory ident (Finite 0) (Finite 1) (Finite (1 / 2)) 1000 True ! 0) \<and>
   s_it (search_trajectory ident (Finite 0) (Finite 1) (Finite (1 / 2)) 1000 True ! 1) = s_it (search_trajectory ident (Finite 0) (Finite 1) (Finite (1 / 2)) 1000 True ! 0) + 1 \<and>
   dgt (dsub (s_b (search_trajectory ident (Finite 0) (Finite 1) (Finite (1 / 2)) 1000 True ! 0)) (s_a (search_trajectory ident (Finite 0) (Finite 1) (Finite (1 / 2)) 1000 True ! 0)))
     (Finite (1 / 2))"
proof -
  let ?tr = "search_trajectory ident (Finite 0) (Finite 1) (Finite (1 / 2)) 1000 True"
  have less: "s_fc (?tr ! 0) < s_fd (?tr ! 0)"
    by (simp add: example_run(1))
  have "Suc 0 < length ?tr" by (simp add: example_run(1))
  with iteration_replaces_endpoint [of ident "Finite 0" "Finite 1" "Finite (1 / 2)" 1000 True] less
  have "s_a (?tr ! Suc 0) = s_a (?tr ! 0) \<and> s_b (?tr ! Suc 0) = s_d (?tr ! 0) \<and>
      s_it (?tr ! Suc 0) = s_it (?tr ! 0) + 1 \<and>
      dgt (dsub (s_b (?tr ! 0)) (s_a (?tr ! 0))) (Finite (1 / 2))"
    by simp
  then show ?thesis using example_run(1) by simp
qed

text \<open>
  C4 as stated fails in double arithmetic. In the run of \<open>ident\<close> on \<open>[0, 1]\<close> the length
  after the first iteration is \<open>gr = 0.6180339887498949\<close> and after the second
  \<open>0.3819660112501051\<close>, which is neither the double product \<open>gr * gr = 0.3819660112501052\<close>
  nor the exact product of the two doubles, nor \<open>(sqrt 5 - 1) / 2\<close> times the first length.
  On \<open>[-2^1023, 2^1023]\<close> with the objective \<open>sign\<close> the first iteration replaces
  \<open>b = 2^1023\<close> by plus infinity: the bracket widens; and the length after the second
  iteration is NaN, which is not less than or equal to the length before it.
\<close>

theorem interval_shrinks_by_gr_counterexample:
  "dsub (s_b (search_trajectory ident (Finite 0) (Finite 1) (Finite (1 / 2)) 1000 True ! 1)) (s_a (search_trajectory ident (Finite 0) (Finite 1) (Finite (1 / 2)) 1000 True ! 1)) =
     Finite (347922205179541 / 562949953421312) \<and>
   dsub (s_b (search_trajectory ident (Finite 0) (Finite 1) (Finite (1 / 2)) 1000 True ! 2)) (s_a (search_trajectory ident (Finite 0) (Finite 1) (Finite (1 / 2)) 1000 True ! 2)) =
     Finite (215027748241771 / 562949953421312) \<and>
   dmul gr (Finite (347922205179541 / 562949953421312)) = Finite (3440443971868337 / 9007199254740992) \<and>
   (215027748241771 / 562949953421312 :: real) \<noteq> 3440443971868337 / 9007199254740992 \<and>
   (215027748241771 / 562949953421312 :: real) \<noteq> (347922205179541 / 562949953421312) * (347922205179541 / 562949953421312) \<and>
   (215027748241771 / 562949953421312 :: real) \<noteq> (sqrt 5 - 1) / 2 * (347922205179541 / 562949953421312) \<and>
   s_b (search_trajectory sign (Finite (- huge)) (Finite huge) (Finite (1 / 2)) 1000 True ! 0) = Finite huge \<and>
   s_b (search_trajectory sign (Finite (- huge)) (Finite huge) (Finite (1 / 2)) 1000 True ! 1) = PInf \<and>
   dlt (Finite huge) PInf \<and>
   dsub (s_b (search_trajectory sign (Finite (- huge)) (Finite huge) (Finite (1 / 2)) 1000 True ! 1)) (s_a (search_trajectory sign (Finite (- huge)) (Finite huge) (Finite (1 / 2)) 1000 True ! 1)) = PInf \<and>
   dsub (s_b (search_trajectory sign (Finite (- huge)) (Finite huge) (Finite (1 / 2)) 1000 True ! 2)) (s_a (search_trajectory sign (Finite (- huge)) (Finite huge) (Finite (1 / 2)) 1000 True ! 2)) = NaN \<and>
   \<not> dle NaN PInf"
proof -
  have irr: "(215027748241771 / 562949953421312 :: real) \<noteq> (sqrt 5 - 1) / 2 * (347922205179541 / 562949953421312)"
  proof
    assume "(215027748241771 / 562949953421312 :: real) = (sqrt 5 - 1) / 2 * (347922205179541 / 562949953421312)"
    then have e: "sqrt 5 * 347922205179541 = 777977701663083"
      by (simp add: field_simps)
    have "(sqrt 5 * 347922205179541)\<^sup>2 = 5 * 347922205179541\<^sup>2"
      by (simp add: power_mult_distrib)
    with e have "(777977701663083::real)\<^sup>2 = 5 * 347922205179541\<^sup>2"
      by simp
    then show False by simp
  qed
  have "dmul gr (Finite (347922205179541 / 562949953421312)) = Finite (3440443971868337 / 9007199254740992)"
    unfolding gr_value ops_first ..
  then show ?thesis
    unfolding example_run(1) example_overflow(1)
    using irr by (simp add: ops_first ops_second del: dadd.simps dmul.simps) (simp add: dsub_def dle_def)
qed

section \<open>Result selection\<close>




section \<open>Direction symmetry\<close>




end
